theory Spec2Isabelle
  imports Complex_Main "HOL-Library.Sublist"
begin

section \<open>JavaScript values and the built-ins the controller calls\<close>

text \<open>
  The controller (controllers/product.controller.js) works on the strings that csv-parser
  and the query-string parser hand to it. A JavaScript string is modelled as a
  \<^typ>\<open>string\<close> (a list of 8-bit characters), \<open>undefined\<close> as \<^term>\<open>None\<close>.
  A JavaScript number is kept as its mathematical value: the rounding of IEEE-754
  doubles and the sign of zero are not part of this model, the three special values
  that the controller can observe (\<open>NaN\<close>, \<open>Infinity\<close>, \<open>-Infinity\<close>) are.
\<close>

datatype jsnum = NaN | PosInf | NegInf | Fin rat

datatype jsval = Str string | Num jsnum

text \<open>\<open>!x\<close> is false exactly for a non-empty string; \<open>undefined\<close> and \<open>''\<close> are falsy.\<close>

definition truthy :: "string option \<Rightarrow> bool" where
  "truthy v = (case v of None \<Rightarrow> False | Some s \<Rightarrow> s \<noteq> [])"

text \<open>\<open>ToString\<close> of a value that is a string or \<open>undefined\<close>.\<close>

definition ToString :: "string option \<Rightarrow> string" where
  "ToString v = (case v of None \<Rightarrow> ''undefined'' | Some s \<Rightarrow> s)"

text \<open>
  White space and line terminators that \<open>parseFloat\<close>, \<open>parseInt\<close> and
  \<open>String.prototype.trim\<close> strip: TAB, LF, VT, FF, CR and SPACE. The non-ASCII
  white space of ECMAScript is outside an 8-bit character model.
\<close>

definition isWhiteSpace :: "char \<Rightarrow> bool" where
  "isWhiteSpace c = (c \<in> set [CHR 0x09, CHR 0x0A, CHR 0x0B, CHR 0x0C, CHR 0x0D, CHR '' ''])"

definition isDigit :: "char \<Rightarrow> bool" where
  "isDigit c = (c \<in> set ''0123456789'')"

definition digitVal :: "char \<Rightarrow> nat" where
  "digitVal c = of_char c - 48"

definition digitsVal :: "string \<Rightarrow> nat" where
  "digitsVal ds = foldl (\<lambda>a c. 10 * a + digitVal c) 0 ds"

definition trim :: "string \<Rightarrow> string" where
  "trim s = rev (dropWhile isWhiteSpace (rev (dropWhile isWhiteSpace s)))"

definition stripSign :: "string \<Rightarrow> bool \<times> string" where
  "stripSign s =
     (case s of
        [] \<Rightarrow> (False, [])
      | c # r \<Rightarrow>
          if c = CHR ''-'' then (True, r)
          else if c = CHR ''+'' then (False, r)
          else (False, s))"

definition pow10 :: "int \<Rightarrow> rat" where
  "pow10 e = (if 0 \<le> e then 10 ^ nat e else 1 / 10 ^ nat (- e))"

text \<open>
  The value of an \<open>ExponentPart\<close> at the start of the string (\<open>e\<close> or \<open>E\<close>, an optional
  sign, at least one digit); 0 when there is none, since the longest prefix that is a
  \<open>StrDecimalLiteral\<close> then ends before the \<open>e\<close>.
\<close>

definition exponentPart :: "string \<Rightarrow> int" where
  "exponentPart s =
     (case s of
        [] \<Rightarrow> 0
      | c # r \<Rightarrow>
          if c = CHR ''e'' \<or> c = CHR ''E'' then
            (let (neg, r') = stripSign r; ds = takeWhile isDigit r'
             in if ds = [] then 0
                else if neg then - int (digitsVal ds) else int (digitsVal ds))
          else 0)"

text \<open>
  \<open>parseFloat(string)\<close> (ECMA-262, 19.2.4): leading white space is dropped, then the
  longest prefix that is a \<open>StrDecimalLiteral\<close> is read: an optional sign, then either
  \<open>Infinity\<close> or decimal digits with an optional fraction and exponent. With no such
  prefix the result is \<open>NaN\<close>; whatever follows the prefix is ignored.
\<close>

definition parseFloat :: "string \<Rightarrow> jsnum" where
  "parseFloat inputString =
     (let trimmed = dropWhile isWhiteSpace inputString;
          (neg, u) = stripSign trimmed
      in if prefix ''Infinity'' u then (if neg then NegInf else PosInf)
         else
           (let ip = takeWhile isDigit u;
                r1 = dropWhile isDigit u;
                (fp, r2) =
                  (case r1 of
                     [] \<Rightarrow> ([], [])
                   | c # r \<Rightarrow>
                       if c = CHR ''.'' then (takeWhile isDigit r, dropWhile isDigit r)
                       else ([], r1))
            in if ip = [] \<and> fp = [] then NaN
               else
                 (let m = of_nat (digitsVal (ip @ fp)) * pow10 (exponentPart r2 - int (length fp))
                  in Fin (if neg then - m else m))))"

text \<open>
  \<open>parseInt(string, 10)\<close> (ECMA-262, 19.2.5) with the radix fixed to 10 as at every call
  of the controller: leading white space and one sign are dropped, the longest run of
  decimal digits is read, and the result is \<open>NaN\<close> (here \<^term>\<open>None\<close>) when that run is
  empty. The result is an integer, so it is kept as an \<^typ>\<open>int\<close>.
\<close>

definition parseInt :: "string \<Rightarrow> int option" where
  "parseInt inputString =
     (let S = dropWhile isWhiteSpace inputString;
          (neg, S') = stripSign S;
          Z = takeWhile isDigit S'
      in if Z = [] then None
         else Some (if neg then - int (digitsVal Z) else int (digitsVal Z)))"

definition isNaN :: "jsnum \<Rightarrow> bool" where
  "isNaN x = (x = NaN)"

text \<open>The relational operators on numbers: every comparison with \<open>NaN\<close> is false.\<close>

fun js_lt :: "jsnum \<Rightarrow> jsnum \<Rightarrow> bool" where
  "js_lt NaN _ = False"
| "js_lt _ NaN = False"
| "js_lt PosInf _ = False"
| "js_lt _ PosInf = True"
| "js_lt _ NegInf = False"
| "js_lt NegInf _ = True"
| "js_lt (Fin a) (Fin b) = (a < b)"

definition js_gt :: "jsnum \<Rightarrow> jsnum \<Rightarrow> bool" where
  "js_gt a b = js_lt b a"

definition js_le :: "jsnum \<Rightarrow> jsnum \<Rightarrow> bool" where
  "js_le a b = (a \<noteq> NaN \<and> b \<noteq> NaN \<and> \<not> js_lt b a)"

definition js_ge :: "jsnum \<Rightarrow> jsnum \<Rightarrow> bool" where
  "js_ge a b = js_le b a"


section \<open>The upload handler\<close>

text \<open>
  A Raw Row is the object csv-parser emits for one data line: a mapping from the header
  names to the cell strings. A cell that the line does not have leaves its key absent.
\<close>

type_synonym row = "string \<rightharpoonup> string"

text \<open>
  An element of \<open>validProducts\<close>: the object
  \<open>{ ...row, mrp: parsedMrp, price: parsedPrice, quantity: parsedQuantity }\<close>.
\<close>

type_synonym product = "string \<rightharpoonup> jsval"

text \<open>An element of \<open>failedValidation\<close>: \<open>{ row: rowCount, data: row, reason: '...' }\<close>.\<close>

record rejection =
  row :: nat
  data :: "string \<rightharpoonup> string"
  reason :: string

text \<open>The three variables the \<open>data\<close> callback closes over.\<close>

record upload_state =
  validProducts :: "product list"
  failedValidation :: "rejection list"
  rowCount :: nat

definition init_state :: upload_state where
  "init_state = \<lparr>validProducts = [], failedValidation = [], rowCount = 0\<rparr>"

text \<open>
  The callback of \<open>.on('data', ...)\<close>. Each \<open>push\<close> followed by \<open>return\<close> is one
  branch; \<open>quantity || 0\<close> is the string itself when it is truthy and the number 0,
  which \<open>parseInt\<close> reads as \<open>"0"\<close>, otherwise.
\<close>

definition onData :: "row \<Rightarrow> upload_state \<Rightarrow> upload_state" where
  "onData r st0 =
     (let st = st0\<lparr>rowCount := rowCount st0 + 1\<rparr>;
          sku = r ''sku''; name = r ''name''; brand = r ''brand'';
          mrp = r ''mrp''; price = r ''price''; quantity = r ''quantity''
      in if \<not> truthy sku \<or> \<not> truthy name \<or> \<not> truthy brand \<or> \<not> truthy mrp \<or> \<not> truthy price then
           st\<lparr>failedValidation := failedValidation st @
             [\<lparr>row = rowCount st, data = r, reason = ''Missing required fields.''\<rparr>]\<rparr>
         else
           (let parsedMrp = parseFloat (ToString mrp);
                parsedPrice = parseFloat (ToString price);
                parsedQuantity = parseInt (if truthy quantity then ToString quantity else ''0'')
            in if isNaN parsedMrp \<or> isNaN parsedPrice \<or> parsedQuantity = None then
                 st\<lparr>failedValidation := failedValidation st @
                   [\<lparr>row = rowCount st, data = r,
                     reason = ''Invalid number format for MRP, Price, or Quantity.''\<rparr>]\<rparr>
               else if js_gt parsedPrice parsedMrp then
                 st\<lparr>failedValidation := failedValidation st @
                   [\<lparr>row = rowCount st, data = r, reason = ''Price cannot be greater than MRP.''\<rparr>]\<rparr>
               else if the parsedQuantity < 0 then
                 st\<lparr>failedValidation := failedValidation st @
                   [\<lparr>row = rowCount st, data = r, reason = ''Quantity can't be negative.''\<rparr>]\<rparr>
               else
                 st\<lparr>validProducts := validProducts st @
                   [(map_option Str \<circ> r)
                      (''mrp'' \<mapsto> Num parsedMrp,
                       ''price'' \<mapsto> Num parsedPrice,
                       ''quantity'' \<mapsto> Num (Fin (of_int (the parsedQuantity))))]\<rparr>))"

text \<open>The callback run on every row of the stream, in the order csv-parser emits them.\<close>

definition onRows :: "row list \<Rightarrow> upload_state \<Rightarrow> upload_state" where
  "onRows rs st = foldl (\<lambda>s r. onData r s) st rs"

text \<open>
  One element of the array given to \<open>Product.bulkWrite\<close>:
  \<open>{ updateOne: { filter: { sku: product.sku }, update: { $set: product }, upsert: true } }\<close>.
\<close>

record updateOne =
  filter_sku :: "jsval option"
  update_set :: product
  upsert :: bool

definition mkOperation :: "product \<Rightarrow> updateOne" where
  "mkOperation p = \<lparr>filter_sku = p ''sku'', update_set = p, upsert = True\<rparr>"

text \<open>
  The JSON bodies the three handlers send, and a response as status code and body.
\<close>

datatype body =
    Message string
  | Failure string string
  | Summary string nat nat "rejection list"
  | Page nat int int "product list"
  | Products "product list"

type_synonym response = "nat \<times> body"

text \<open>
  What csv-parser makes of the uploaded buffer: the rows of its \<open>data\<close> events, in order,
  and then either \<open>end\<close> or \<open>error\<close> with the error's message.
\<close>

datatype stream_end = End | Error string

text \<open>
  The handler of \<open>.on('end', ...)\<close>. The store behind \<open>Product.bulkWrite\<close> is a parameter
  \<open>bw\<close>: given the operations and the catalog it returns the message of the error it
  threw, if any, and the catalog it left. The result is the response, the catalog, and
  the list of batches that were sent to the store.
\<close>

definition onEnd ::
  "(updateOne list \<Rightarrow> 'db \<Rightarrow> string option \<times> 'db) \<Rightarrow> upload_state \<Rightarrow> 'db
     \<Rightarrow> response \<times> 'db \<times> updateOne list list" where
  "onEnd bw st db =
     (let summary = (201, Summary ''CSV data processed successfully.''
                       (length (validProducts st)) (length (failedValidation st))
                       (failedValidation st))
      in if length (validProducts st) > 0 then
           (let operations = map mkOperation (validProducts st)
            in case bw operations db of
                 (None, db') \<Rightarrow> (summary, db', [operations])
               | (Some msg, db') \<Rightarrow>
                   ((500, Failure ''Error storing Product Details in the database.'' msg),
                    db', [operations]))
         else (summary, db, []))"

text \<open>
  \<open>uploadProducts\<close>: \<open>req.file\<close> is absent (\<^term>\<open>None\<close>) or holds the buffer, given here
  by what csv-parser emits for it.
\<close>

definition uploadProducts ::
  "(updateOne list \<Rightarrow> 'db \<Rightarrow> string option \<times> 'db) \<Rightarrow> (row list \<times> stream_end) option \<Rightarrow> 'db
     \<Rightarrow> response \<times> 'db \<times> updateOne list list" where
  "uploadProducts bw file db =
     (case file of
        None \<Rightarrow> ((400, Message ''No file found. Please upload a CSV file.''), db, [])
      | Some (rows, End) \<Rightarrow> onEnd bw (onRows rows init_state) db
      | Some (rows, Error msg) \<Rightarrow>
          ((500, Failure ''Error in parsing CSV file.'' msg), db, []))"

section \<open>The catalog store\<close>

text \<open>
  Modelled from the spec: the Catalog Store. The store is MongoDB behind the Mongoose
  model \<open>Product\<close>; of it the sources hold only the schema (models/product.model.js) and
  the calls the controller makes (\<open>bulkWrite\<close> of \<open>updateOne\<close> operations with
  \<open>upsert: true\<close>, \<open>find\<close>, \<open>skip\<close>, \<open>limit\<close>, \<open>countDocuments\<close>). What those calls do is
  taken from the spec (section 4.2: one upsert per product, keyed on sku,
  create-if-absent-else-replace; section 4.3: natural storage order, a slice by offset
  and size, case-insensitive matching, inclusive bounds) and from the schema. A catalog
  is the list of stored documents in storage order; the fields the store maintains by
  itself (\<open>_id\<close>, \<open>createdAt\<close>, \<open>updatedAt\<close>) are left out.
\<close>

type_synonym catalog = "product list"

text \<open>The paths of \<open>productSchema\<close> with their types; every String path has \<open>trim: true\<close>.\<close>

datatype schemaType = SString | SNumber

definition productSchema :: "(string \<times> schemaType) list" where
  "productSchema =
     [(''sku'', SString), (''name'', SString), (''brand'', SString), (''color'', SString),
      (''size'', SString), (''mrp'', SNumber), (''price'', SNumber), (''quantity'', SNumber)]"

text \<open>
  Modelled from the spec: casting one value to the type of its path. A string on a
  String path is trimmed, a number other than \<open>NaN\<close> on a Number path is kept. A value
  of the other JavaScript type never comes from the controller and is reported as a
  failed cast.
\<close>

definition castValue :: "schemaType \<Rightarrow> jsval \<Rightarrow> jsval option" where
  "castValue t v =
     (case (t, v) of
        (SString, Str s) \<Rightarrow> Some (Str (trim s))
      | (SNumber, Num n) \<Rightarrow> (if n = NaN then None else Some (Num n))
      | _ \<Rightarrow> None)"

text \<open>
  Modelled from the spec: the value the store keeps for one key of a \<open>$set\<close> document:
  none for a key that is no path of the schema or that the document does not set.
\<close>

definition castPath :: "product \<Rightarrow> string \<Rightarrow> jsval option" where
  "castPath p k =
     (case map_of productSchema k of
        None \<Rightarrow> None
      | Some t \<Rightarrow> (case p k of None \<Rightarrow> None | Some v \<Rightarrow> castValue t v))"

text \<open>
  Modelled from the spec: casting the \<open>$set\<close> document. Keys that are no path of the
  schema are dropped, the others are cast; one failed cast fails the whole document.
\<close>

definition castSet :: "product \<Rightarrow> product option" where
  "castSet p =
     (if list_all (\<lambda>(k, t). case p k of None \<Rightarrow> True | Some v \<Rightarrow> castValue t v \<noteq> None)
           productSchema
      then Some (castPath p) else None)"

text \<open>
  Modelled from the spec: one \<open>updateOne\<close> with the filter \<open>{ sku: k }\<close> and the update
  \<open>{ $set: u }\<close>. The first document in storage order whose sku is \<open>k\<close> gets the fields of
  \<open>u\<close>, its other fields staying as they are; when there is none and \<open>upsert\<close> is set, a
  document made of the filter's sku and the fields of \<open>u\<close> is added at the end.
\<close>

fun updateDoc :: "bool \<Rightarrow> string \<Rightarrow> product \<Rightarrow> catalog \<Rightarrow> catalog" where
  "updateDoc ins k u [] = (if ins then [[''sku'' \<mapsto> Str k] ++ u] else [])"
| "updateDoc ins k u (d # ds) =
     (if d ''sku'' = Some (Str k) then (d ++ u) # ds else d # updateDoc ins k u ds)"

text \<open>
  Modelled from the spec: an operation as the store runs it, after casting: the trimmed
  key and the cast \<open>$set\<close> document. The operations the controller builds filter on the sku
  they set; an operation of another shape (no string sku in the filter, a document that
  does not cast, a \<open>$set\<close> that changes the sku) is outside this model and makes the
  batch fail.
\<close>

definition castOperation :: "updateOne \<Rightarrow> (bool \<times> string \<times> product) option" where
  "castOperation op =
     (case (filter_sku op, castSet (update_set op)) of
        (Some (Str s), Some u) \<Rightarrow>
          (if u ''sku'' = Some (Str (trim s)) then Some (upsert op, trim s, u) else None)
      | _ \<Rightarrow> None)"

text \<open>
  Modelled from the spec: the cast operations of one batch, run one after the other in
  the order of the array.
\<close>

definition runOperations :: "(bool \<times> string \<times> product) list \<Rightarrow> catalog \<Rightarrow> catalog" where
  "runOperations ops db = foldl (\<lambda>c (ins, k, u). updateDoc ins k u c) db ops"

text \<open>
  Modelled from the spec: \<open>Product.bulkWrite(operations)\<close>. All operations are cast before
  any is sent; when all cast, they run in order.
\<close>

definition bulkWrite :: "updateOne list \<Rightarrow> catalog \<Rightarrow> string option \<times> catalog" where
  "bulkWrite operations db =
     (if list_all (\<lambda>op. castOperation op \<noteq> None) operations
      then (None, runOperations (map (the \<circ> castOperation) operations) db)
      else (Some ''bulkWrite: operation could not be cast'', db))"

text \<open>
  Modelled from the spec: \<open>Product.find({}).skip(skip).limit(limit)\<close>: the documents in
  storage order from offset \<open>skip\<close> on, at most \<open>limit\<close> of them (section 4.3, for
  page and limit at least 1). Outside that contract the model follows what MongoDB
  documents: a negative \<open>skip\<close> is refused, a \<open>limit\<close> of 0 means no limit and a
  negative one counts by its absolute value.
\<close>

definition find_skip_limit :: "int \<Rightarrow> int \<Rightarrow> catalog \<Rightarrow> string + product list" where
  "find_skip_limit skip limit db =
     (if skip < 0 then Inl ''Skip value must be non-negative''
      else
        (let rest = drop (nat skip) db
         in Inr (if limit = 0 then rest else take (nat \<bar>limit\<bar>) rest)))"

text \<open>Modelled from the spec: \<open>Product.countDocuments()\<close>, the total entry count.\<close>

definition countDocuments :: "catalog \<Rightarrow> nat" where
  "countDocuments db = length db"

text \<open>
  Modelled from the spec: matching \<open>{ $regex: pattern, $options: 'i' }\<close>. Of the
  regular-expression syntax two things are modelled: a character that is no
  metacharacter matches itself, upper and lower case alike (ASCII letters), and \<open>.\<close>
  matches any one character but a line feed. A pattern with another metacharacter has
  no parse here (\<^term>\<open>None\<close>). A pattern matches a string when it matches at some
  position of it.
\<close>

datatype rx = AnyChar | Lit char

text \<open>
  Modelled from the spec: the characters that are special in a regular expression,
  the dot apart.
\<close>

definition metaChars :: "char list" where
  "metaChars =
     [CHR 0x5C, CHR ''^'', CHR ''$'', CHR ''|'', CHR ''?'', CHR ''*'', CHR ''+'',
      CHR ''('', CHR '')'', CHR ''['', CHR '']'', CHR ''{'', CHR ''}'']"

text \<open>Modelled from the spec: reading a pattern of the modelled syntax.\<close>

fun parsePattern :: "string \<Rightarrow> rx list option" where
  "parsePattern [] = Some []"
| "parsePattern (c # cs) =
     (if c \<in> set metaChars then None
      else
        (case parsePattern cs of
           None \<Rightarrow> None
         | Some as \<Rightarrow> Some ((if c = CHR ''.'' then AnyChar else Lit c) # as)))"

text \<open>Modelled from the spec: case folding of option \<open>i\<close>, on the ASCII letters.\<close>

definition toLower :: "char \<Rightarrow> char" where
  "toLower c =
     (case map_of (zip ''ABCDEFGHIJKLMNOPQRSTUVWXYZ'' ''abcdefghijklmnopqrstuvwxyz'') c of
        None \<Rightarrow> c
      | Some l \<Rightarrow> l)"

text \<open>Modelled from the spec: the pattern matches at the start of the string.\<close>

fun matchHere :: "rx list \<Rightarrow> string \<Rightarrow> bool" where
  "matchHere [] s = True"
| "matchHere (a # as) [] = False"
| "matchHere (a # as) (c # cs) =
     ((case a of AnyChar \<Rightarrow> c \<noteq> CHR 0x0A | Lit l \<Rightarrow> toLower l = toLower c) \<and> matchHere as cs)"

text \<open>Modelled from the spec: the pattern matches at some position of the string.\<close>

fun searchRx :: "rx list \<Rightarrow> string \<Rightarrow> bool" where
  "searchRx p [] = matchHere p []"
| "searchRx p (c # cs) = (matchHere p (c # cs) \<or> searchRx p cs)"

text \<open>The object \<open>filter\<close> that \<open>filterProducts\<close> builds, key by key.\<close>

record productFilter =
  name_regex :: "string option"
  brand_regex :: "string option"
  color_regex :: "string option"
  price_gte :: "jsnum option"
  price_lte :: "jsnum option"

text \<open>
  Modelled from the spec: one \<open>$regex\<close> key of the filter holds for a document when the
  field is a string that the pattern matches; a document without the field does not
  match. An absent key holds for every document.
\<close>

definition regexHolds :: "string option \<Rightarrow> jsval option \<Rightarrow> bool" where
  "regexHolds pat v =
     (case pat of
        None \<Rightarrow> True
      | Some p \<Rightarrow>
          (case (parsePattern p, v) of
             (Some as, Some (Str s)) \<Rightarrow> searchRx as s
           | _ \<Rightarrow> False))"

text \<open>
  Modelled from the spec: one bound (\<open>$gte\<close> or \<open>$lte\<close>) on price holds for a document
  when the field is a number in that relation to the bound.
\<close>

definition boundHolds :: "(jsnum \<Rightarrow> jsnum \<Rightarrow> bool) \<Rightarrow> jsnum option \<Rightarrow> jsval option \<Rightarrow> bool" where
  "boundHolds cmp b v =
     (case b of
        None \<Rightarrow> True
      | Some n \<Rightarrow> (case v of Some (Num x) \<Rightarrow> cmp x n | _ \<Rightarrow> False))"

text \<open>Modelled from the spec: a document matches the filter when every key holds.\<close>

definition matchesFilter :: "productFilter \<Rightarrow> product \<Rightarrow> bool" where
  "matchesFilter f d =
     (regexHolds (name_regex f) (d ''name'') \<and>
      regexHolds (brand_regex f) (d ''brand'') \<and>
      regexHolds (color_regex f) (d ''color'') \<and>
      boundHolds js_ge (price_gte f) (d ''price'') \<and>
      boundHolds js_le (price_lte f) (d ''price''))"

text \<open>Modelled from the spec: the pattern of a key, if any, is of the modelled syntax.\<close>

definition patternModelled :: "string option \<Rightarrow> bool" where
  "patternModelled pat = (case pat of None \<Rightarrow> True | Some p \<Rightarrow> parsePattern p \<noteq> None)"

text \<open>
  Modelled from the spec: \<open>Product.find(filter)\<close>: the documents that satisfy every key of
  the filter, in storage order. A bound that is \<open>NaN\<close> does not cast to the Number path
  and the query throws. The result is \<^term>\<open>None\<close> when a pattern is outside the modelled
  syntax.
\<close>

definition find_filter :: "productFilter \<Rightarrow> catalog \<Rightarrow> (string + product list) option" where
  "find_filter f db =
     (if \<not> (patternModelled (name_regex f) \<and> patternModelled (brand_regex f) \<and>
             patternModelled (color_regex f)) then None
      else if price_gte f = Some NaN \<or> price_lte f = Some NaN then
        Some (Inl ''Cast to Number failed for path price'')
      else Some (Inr (filter (matchesFilter f) db)))"


section \<open>The two read handlers\<close>

text \<open>\<open>x || d\<close> for the result \<open>x\<close> of \<open>parseInt\<close>: \<open>NaN\<close> and 0 are falsy.\<close>

definition orDefault :: "int option \<Rightarrow> int \<Rightarrow> int" where
  "orDefault x d = (case x of None \<Rightarrow> d | Some n \<Rightarrow> if n = 0 then d else n)"

text \<open>
  \<open>getAllProducts\<close>; \<open>req.query\<close> maps the names of the query string to their strings
  (a name given twice, which the query parser turns into an array, is outside this
  model). \<open>Math.ceil(totalProducts / limit)\<close> is the ceiling of the quotient; \<open>limit\<close> is
  never 0.
\<close>

definition getAllProducts :: "(string \<rightharpoonup> string) \<Rightarrow> catalog \<Rightarrow> response" where
  "getAllProducts query db =
     (let page = orDefault (parseInt (ToString (query ''page''))) 1;
          limit = orDefault (parseInt (ToString (query ''limit''))) 10;
          skip = (page - 1) * limit
      in case find_skip_limit skip limit db of
           Inl msg \<Rightarrow> (500, Failure ''Error fetching products.'' msg)
         | Inr products \<Rightarrow>
             (let totalProducts = countDocuments db
              in (200, Page totalProducts
                         \<lceil>(of_nat totalProducts :: rat) / of_int limit\<rceil> page products)))"

text \<open>The filter object of \<open>filterProducts\<close>.\<close>

definition buildFilter :: "(string \<rightharpoonup> string) \<Rightarrow> productFilter" where
  "buildFilter query =
     (let name = query ''name''; brand = query ''brand''; color = query ''color'';
          minPrice = query ''minPrice''; maxPrice = query ''maxPrice''
      in \<lparr>name_regex = (if truthy name then name else None),
          brand_regex = (if truthy brand then brand else None),
          color_regex = (if truthy color then color else None),
          price_gte =
            (if truthy minPrice \<or> truthy maxPrice then
               (if truthy minPrice then Some (parseFloat (ToString minPrice)) else None)
             else None),
          price_lte =
            (if truthy minPrice \<or> truthy maxPrice then
               (if truthy maxPrice then Some (parseFloat (ToString maxPrice)) else None)
             else None)\<rparr>)"

text \<open>
  \<open>filterProducts\<close>. The result is \<^term>\<open>None\<close> where the store model has no answer
  (a pattern outside the modelled regular-expression syntax).
\<close>

definition filterProducts :: "(string \<rightharpoonup> string) \<Rightarrow> catalog \<Rightarrow> response option" where
  "filterProducts query db =
     (case find_filter (buildFilter query) db of
        None \<Rightarrow> None
      | Some (Inl msg) \<Rightarrow> Some (500, Failure ''Error fetching products.'' msg)
      | Some (Inr products) \<Rightarrow>
          Some (if length products = 0 then
                  (404, Message ''No products found matching required criteria.'')
                else (200, Products products)))"

section \<open>The notions the properties are stated with\<close>

text \<open>
  The conditions of the four \<open>if\<close> statements of the \<open>data\<close> callback, by name, with
  the three parsed values they test.
\<close>

definition missingRequired :: "row \<Rightarrow> bool" where
  "missingRequired r =
     (\<not> truthy (r ''sku'') \<or> \<not> truthy (r ''name'') \<or> \<not> truthy (r ''brand'') \<or>
      \<not> truthy (r ''mrp'') \<or> \<not> truthy (r ''price''))"

definition parsedMrp :: "row \<Rightarrow> jsnum" where
  "parsedMrp r = parseFloat (ToString (r ''mrp''))"

definition parsedPrice :: "row \<Rightarrow> jsnum" where
  "parsedPrice r = parseFloat (ToString (r ''price''))"

definition parsedQuantity :: "row \<Rightarrow> int option" where
  "parsedQuantity r =
     parseInt (if truthy (r ''quantity'') then ToString (r ''quantity'') else ''0'')"

definition invalidNumber :: "row \<Rightarrow> bool" where
  "invalidNumber r = (isNaN (parsedMrp r) \<or> isNaN (parsedPrice r) \<or> parsedQuantity r = None)"

definition priceAboveMrp :: "row \<Rightarrow> bool" where
  "priceAboveMrp r = js_gt (parsedPrice r) (parsedMrp r)"

definition negativeQuantity :: "row \<Rightarrow> bool" where
  "negativeQuantity r = (case parsedQuantity r of None \<Rightarrow> False | Some q \<Rightarrow> q < 0)"

definition validatedProduct :: "row \<Rightarrow> product" where
  "validatedProduct r =
     (map_option Str \<circ> r)
       (''mrp'' \<mapsto> Num (parsedMrp r),
        ''price'' \<mapsto> Num (parsedPrice r),
        ''quantity'' \<mapsto> Num (Fin (of_int (the (parsedQuantity r)))))"

text \<open>
  The two outcomes of one row: the row is counted and either a Rejection Record with
  the row's ordinal is appended, or a product is.
\<close>

definition rejected :: "upload_state \<Rightarrow> row \<Rightarrow> string \<Rightarrow> upload_state" where
  "rejected st r why =
     st\<lparr>rowCount := rowCount st + 1,
        failedValidation := failedValidation st @
          [\<lparr>row = rowCount st + 1, data = r, reason = why\<rparr>]\<rparr>"

definition accepted :: "upload_state \<Rightarrow> product \<Rightarrow> upload_state" where
  "accepted st p = st\<lparr>rowCount := rowCount st + 1, validProducts := validProducts st @ [p]\<rparr>"

text \<open>
  The Row Validator of the specification as a function of the row alone: the reason of
  the first rule that fails, in the order of section 4.1, or the product.
\<close>

definition validateRow :: "row \<Rightarrow> string + product" where
  "validateRow r =
     (if missingRequired r then Inl ''Missing required fields.''
      else if invalidNumber r then Inl ''Invalid number format for MRP, Price, or Quantity.''
      else if priceAboveMrp r then Inl ''Price cannot be greater than MRP.''
      else if negativeQuantity r then Inl ''Quantity can't be negative.''
      else Inr (validatedProduct r))"

definition taxonomy :: "string list" where
  "taxonomy =
     [''Missing required fields.'',
      ''Invalid number format for MRP, Price, or Quantity.'',
      ''Price cannot be greater than MRP.'',
      ''Quantity can't be negative.'']"

text \<open>
  The required-fields rule in the words of the specification: a field is missing when
  it is absent or empty after trimming.
\<close>

definition spec_emptyAfterTrim :: "string option \<Rightarrow> bool" where
  "spec_emptyAfterTrim v = (case v of None \<Rightarrow> True | Some s \<Rightarrow> trim s = [])"

definition spec_missingRequired :: "row \<Rightarrow> bool" where
  "spec_missingRequired r =
     list_ex (\<lambda>k. spec_emptyAfterTrim (r k)) [''sku'', ''name'', ''brand'', ''mrp'', ''price'']"

text \<open>The same rule as the callback has it: absent or the empty string, as read.\<close>

definition absentOrEmpty :: "row \<Rightarrow> bool" where
  "absentOrEmpty r =
     list_ex (\<lambda>k. r k = None \<or> r k = Some []) [''sku'', ''name'', ''brand'', ''mrp'', ''price'']"

text \<open>
  The row csv-parser builds from the cells of one line under the header of the
  repository's tests; a line with fewer cells leaves the last keys absent.
\<close>

definition header :: "string list" where
  "header = [''sku'', ''name'', ''brand'', ''color'', ''size'', ''mrp'', ''price'', ''quantity'']"

definition mkRow :: "string list \<Rightarrow> row" where
  "mkRow cells = map_of (zip header cells)"

text \<open>Rows of the repository's test file, and three more.\<close>

definition validRow :: row where
  "validRow = mkRow [''VALID-001'', ''Valid Product'', ''BrandA'', ''Red'', ''S'', ''1000'', ''800'', ''10'']"

definition highPriceRow :: row where
  "highPriceRow = mkRow [''INVALID-PRICE-002'', ''Invalid Price'', ''BrandB'', ''Blue'', ''M'', ''1000'', ''1200'', ''5'']"

definition negQtyRow :: row where
  "negQtyRow = mkRow [''INVALID-QTY-003'', ''Invalid Qty'', ''BrandC'', ''Green'', ''L'', ''1500'', ''1200'', ''-1'']"

definition missingNameRow :: row where
  "missingNameRow = mkRow [''MISSING-SKU'', '''', ''Missing SKU'', ''BrandD'', ''XL'', ''2000'', ''1500'', ''8'']"

definition badNumberRow :: row where
  "badNumberRow = mkRow [''INVALID-NUM'', ''Invalid Number'', ''BrandF'', ''Yellow'', ''M'', ''1000'', ''not-a-price'', ''5'']"

definition manyFaultsRow :: row where
  "manyFaultsRow = mkRow ['''', ''Shirt'', ''BrandA'', ''Red'', ''S'', ''100'', ''200'', ''-3'']"

definition blankSkuRow :: row where
  "blankSkuRow = mkRow ['' '', ''Shirt'', ''BrandA'', ''Red'', ''S'', ''800'', ''500'', ''10'']"

definition infiniteMrpRow :: row where
  "infiniteMrpRow = mkRow [''SKU-INF'', ''Shirt'', ''BrandA'', ''Red'', ''S'', ''Infinity'', ''500'', ''10'']"

text \<open>
  When \<open>parseFloat\<close> and \<open>parseInt\<close> have something to read: after the leading white
  space and one optional sign the string starts with \<open>Infinity\<close>, with a digit, or with
  a dot and a digit (\<open>parseFloat\<close>), or with a digit (\<open>parseInt\<close>).
\<close>

definition startsNumber :: "string \<Rightarrow> bool" where
  "startsNumber s =
     (let u = snd (stripSign (dropWhile isWhiteSpace s))
      in prefix ''Infinity'' u \<or>
         (case u of
            [] \<Rightarrow> False
          | c # r \<Rightarrow>
              isDigit c \<or> (c = CHR ''.'' \<and> (case r of [] \<Rightarrow> False | d # _ \<Rightarrow> isDigit d))))"

definition startsInteger :: "string \<Rightarrow> bool" where
  "startsInteger s =
     (case snd (stripSign (dropWhile isWhiteSpace s)) of [] \<Rightarrow> False | c # _ \<Rightarrow> isDigit c)"

text \<open>
  The accepted set and the rejected set of a decoded stream, and the Rejection Records
  of its rows when the rows before them number \<open>n\<close>.
\<close>

definition acceptedProducts :: "row list \<Rightarrow> product list" where
  "acceptedProducts rows = map validatedProduct (filter (\<lambda>r. \<not> isl (validateRow r)) rows)"

definition rejectedRows :: "row list \<Rightarrow> row list" where
  "rejectedRows rows = filter (\<lambda>r. isl (validateRow r)) rows"

fun rejectionsFrom :: "nat \<Rightarrow> row list \<Rightarrow> rejection list" where
  "rejectionsFrom n [] = []"
| "rejectionsFrom n (r # rs) =
     (case validateRow r of
        Inl why \<Rightarrow> [\<lparr>row = n + 1, data = r, reason = why\<rparr>]
      | Inr p \<Rightarrow> []) @ rejectionsFrom (n + 1) rs"

definition summaryOf :: "row list \<Rightarrow> response" where
  "summaryOf rows =
     (201, Summary ''CSV data processed successfully.''
             (length (acceptedProducts rows)) (length (rejectedRows rows))
             (rejectionsFrom 0 rows))"

text \<open>A store that always succeeds and one that always throws, to run the handler with.\<close>

definition okStore :: "updateOne list \<Rightarrow> nat \<Rightarrow> string option \<times> nat" where
  "okStore ops n = (None, n + length ops)"

definition downStore :: "updateOne list \<Rightarrow> nat \<Rightarrow> string option \<times> nat" where
  "downStore ops n = (Some ''connection lost'', n)"

definition testFile :: "row list" where
  "testFile = [validRow, highPriceRow, negQtyRow, missingNameRow, badNumberRow]"

text \<open>
  A parameter of the listing as the specification speaks of it: absent, and then the
  default, or present and read by \<open>parseInt\<close> as the integer \<open>n\<close>.
\<close>

definition requested :: "string option \<Rightarrow> int \<Rightarrow> int \<Rightarrow> bool" where
  "requested v dflt n = (case v of None \<Rightarrow> n = dflt | Some s \<Rightarrow> parseInt s = Some n)"

text \<open>
  The search criteria in the words of the specification: a text criterion is a
  case-insensitive substring match, a price criterion an inclusive bound. A parameter
  is provided when it is present and not empty.
\<close>

definition ciContains :: "string \<Rightarrow> string \<Rightarrow> bool" where
  "ciContains pat s = sublist (map toLower pat) (map toLower s)"

definition substringHolds :: "string option \<Rightarrow> jsval option \<Rightarrow> bool" where
  "substringHolds pat v =
     (if truthy pat then (case v of Some (Str s) \<Rightarrow> ciContains (the pat) s | _ \<Rightarrow> False)
      else True)"

definition priceHolds ::
  "(jsnum \<Rightarrow> jsnum \<Rightarrow> bool) \<Rightarrow> string option \<Rightarrow> jsval option \<Rightarrow> bool" where
  "priceHolds cmp b v =
     (if truthy b then (case v of Some (Num x) \<Rightarrow> cmp x (parseFloat (the b)) | _ \<Rightarrow> False)
      else True)"

definition spec_matches :: "(string \<rightharpoonup> string) \<Rightarrow> product \<Rightarrow> bool" where
  "spec_matches query d =
     (substringHolds (query ''name'') (d ''name'') \<and>
      substringHolds (query ''brand'') (d ''brand'') \<and>
      substringHolds (query ''color'') (d ''color'') \<and>
      priceHolds js_ge (query ''minPrice'') (d ''price'') \<and>
      priceHolds js_le (query ''maxPrice'') (d ''price''))"

text \<open>
  A text parameter without a character that is special in a regular expression, and a
  price parameter that \<open>parseFloat\<close> can read.
\<close>

definition literalPattern :: "string option \<Rightarrow> bool" where
  "literalPattern pat =
     (case pat of
        None \<Rightarrow> True
      | Some p \<Rightarrow> list_all (\<lambda>c. c \<notin> set metaChars \<and> c \<noteq> CHR ''.'') p)"

definition readableBound :: "string option \<Rightarrow> bool" where
  "readableBound b = (if truthy b then parseFloat (the b) \<noteq> NaN else True)"

definition plainQuery :: "(string \<rightharpoonup> string) \<Rightarrow> bool" where
  "plainQuery query =
     (literalPattern (query ''name'') \<and> literalPattern (query ''brand'') \<and>
      literalPattern (query ''color'') \<and>
      readableBound (query ''minPrice'') \<and> readableBound (query ''maxPrice''))"

text \<open>
  The search criteria as regular-expression matches, stated on the strings alone: a
  character of the parameter stands for itself, upper and lower case alike, and the
  dot for any character but a line feed; the parameter matches a field when it matches,
  character by character, the start of one of the field's suffixes.
\<close>

definition charMatches :: "char \<Rightarrow> char \<Rightarrow> bool" where
  "charMatches p c = (if p = CHR ''.'' then c \<noteq> CHR 0x0A else toLower p = toLower c)"

definition wildcardContains :: "string \<Rightarrow> string \<Rightarrow> bool" where
  "wildcardContains pat s =
     list_ex (\<lambda>t. list_all2 charMatches pat (take (length pat) t)) (suffixes s)"

definition regexCriterion :: "string option \<Rightarrow> jsval option \<Rightarrow> bool" where
  "regexCriterion pat v =
     (if truthy pat then (case v of Some (Str s) \<Rightarrow> wildcardContains (the pat) s | _ \<Rightarrow> False)
      else True)"

definition criteria :: "(string \<rightharpoonup> string) \<Rightarrow> product \<Rightarrow> bool" where
  "criteria query d =
     (regexCriterion (query ''name'') (d ''name'') \<and>
      regexCriterion (query ''brand'') (d ''brand'') \<and>
      regexCriterion (query ''color'') (d ''color'') \<and>
      priceHolds js_ge (query ''minPrice'') (d ''price'') \<and>
      priceHolds js_le (query ''maxPrice'') (d ''price''))"

text \<open>
  A text parameter with no character that is special in a regular expression, the dot
  apart; and a price parameter that is provided but that \<open>parseFloat\<close> cannot read.
\<close>

definition dotPattern :: "string option \<Rightarrow> bool" where
  "dotPattern pat = (case pat of None \<Rightarrow> True | Some p \<Rightarrow> list_all (\<lambda>c. c \<notin> set metaChars) p)"

definition dotQueryOnly :: "(string \<rightharpoonup> string) \<Rightarrow> bool" where
  "dotQueryOnly query =
     (dotPattern (query ''name'') \<and> dotPattern (query ''brand'') \<and> dotPattern (query ''color''))"

definition unreadableBound :: "string option \<Rightarrow> bool" where
  "unreadableBound b = (truthy b \<and> parseFloat (the b) = NaN)"

text \<open>The fixtures of the repository's tests for the two read handlers.\<close>

definition listDoc :: "nat \<Rightarrow> product" where
  "listDoc i =
     map_of [(''sku'', Str (''SKU-'' @ replicate i CHR ''I'')), (''name'', Str ''Product''),
             (''brand'', Str ''TestBrand''), (''mrp'', Num (Fin 100)), (''price'', Num (Fin 80)),
             (''quantity'', Num (Fin 10))]"

definition listFixture :: catalog where
  "listFixture = map listDoc [1..<16]"

definition mkDoc :: "string \<Rightarrow> string \<Rightarrow> string \<Rightarrow> string \<Rightarrow> rat \<Rightarrow> rat \<Rightarrow> rat \<Rightarrow> product" where
  "mkDoc sku name brand color price mrp quantity =
     map_of [(''sku'', Str sku), (''name'', Str name), (''brand'', Str brand),
             (''color'', Str color), (''price'', Num (Fin price)), (''mrp'', Num (Fin mrp)),
             (''quantity'', Num (Fin quantity))]"

definition docA :: product where
  "docA = mkDoc ''A-001'' ''Red T-Shirt'' ''StreamThreads'' ''Red'' 500 800 10"

definition docB :: product where
  "docB = mkDoc ''B-002'' ''Blue Jeans'' ''DenimWorks'' ''Blue'' 1500 2000 5"

definition docC :: product where
  "docC = mkDoc ''C-003'' ''Green Polo'' ''StreamThreads'' ''Green'' 1200 1500 8"

definition docD :: product where
  "docD = mkDoc ''D-004'' ''Black Jacket'' ''UrbanEdge'' ''Black'' 3000 4000 3"

definition docE :: product where
  "docE = mkDoc ''E-005'' ''Red Sneakers'' ''UrbanEdge'' ''Red'' 2500 3000 7"

definition searchFixture :: catalog where
  "searchFixture = [docA, docB, docC, docD, docE]"

text \<open>Query strings of the repository's tests, and three more.\<close>

definition emptyQuery :: "string \<rightharpoonup> string" where
  "emptyQuery = map_of []"

definition minPriceQuery :: "string \<rightharpoonup> string" where
  "minPriceQuery = map_of [(''minPrice'', ''2000'')]"

definition brandQuery :: "string \<rightharpoonup> string" where
  "brandQuery = map_of [(''brand'', ''streamthreads'')]"

definition noBrandQuery :: "string \<rightharpoonup> string" where
  "noBrandQuery = map_of [(''brand'', ''NonExistentBrand'')]"

definition maxZeroQuery :: "string \<rightharpoonup> string" where
  "maxZeroQuery = map_of [(''maxPrice'', ''0'')]"

definition dotQuery :: "string \<rightharpoonup> string" where
  "dotQuery = map_of [(''brand'', ''.'')]"

definition badBoundQuery :: "string \<rightharpoonup> string" where
  "badBoundQuery = map_of [(''minPrice'', ''abc'')]"

definition combinedQuery :: "string \<rightharpoonup> string" where
  "combinedQuery =
     map_of [(''name'', ''red sneakers''), (''brand'', ''UrbanEdge''), (''color'', ''Red''),
             (''minPrice'', ''2000'')]"

definition wildQuery :: "string \<rightharpoonup> string" where
  "wildQuery = map_of [(''name'', ''r.d''), (''maxPrice'', ''600'')]"

text \<open>
  The invariant of the unique index on sku, the key under which a product is stored,
  and the upload handler run against the modelled store: the catalog it leaves and the
  response it sends.
\<close>

definition skuOf :: "product \<Rightarrow> jsval option" where
  "skuOf d = d ''sku''"

definition unique_sku :: "catalog \<Rightarrow> bool" where
  "unique_sku db = distinct (map skuOf db)"

definition storedSku :: "product \<Rightarrow> string" where
  "storedSku p = (case p ''sku'' of Some (Str s) \<Rightarrow> trim s | _ \<Rightarrow> [])"

definition catalogAfterUpload :: "(row list \<times> stream_end) option \<Rightarrow> catalog \<Rightarrow> catalog" where
  "catalogAfterUpload file db = fst (snd (uploadProducts bulkWrite file db))"

definition uploadResponse :: "(row list \<times> stream_end) option \<Rightarrow> catalog \<Rightarrow> response" where
  "uploadResponse file db = fst (uploadProducts bulkWrite file db)"

text \<open>
  Cast operations that are upserts setting the sku they filter on, and the fields that
  a list of them sets, in the end, on the document of a given sku.
\<close>

definition upsertsOnKey :: "(bool \<times> string \<times> product) list \<Rightarrow> bool" where
  "upsertsOnKey ops = list_all (\<lambda>(ins, k, u). ins \<and> skuOf u = Some (Str k)) ops"

fun mergedSet :: "(bool \<times> string \<times> product) list \<Rightarrow> jsval option \<Rightarrow> product" where
  "mergedSet [] s = Map.empty"
| "mergedSet ((ins, k, u) # ops) s =
     (if s = Some (Str k) then u ++ mergedSet ops s else mergedSet ops s)"

definition opKey :: "bool \<times> string \<times> product \<Rightarrow> jsval option" where
  "opKey op = Some (Str (fst (snd op)))"

definition storeOps :: "row list \<Rightarrow> (bool \<times> string \<times> product) list" where
  "storeOps rows = map (the \<circ> castOperation) (map mkOperation (acceptedProducts rows))"

text \<open>A file with the same sku on two accepted rows.\<close>

definition dupRow1 :: row where
  "dupRow1 = mkRow [''DUP-1'', ''Shirt'', ''BrandA'', ''Red'', ''S'', ''800'', ''500'', ''10'']"

definition dupRow2 :: row where
  "dupRow2 = mkRow [''DUP-1'', ''Shirt v2'', ''BrandA'', ''Blue'', ''M'', ''900'', ''450'', ''3'']"

definition dupFile :: "row list" where
  "dupFile = [dupRow1, missingNameRow, dupRow2]"

section \<open>Evaluating the built-ins\<close>

lemmas js_eval =
  parseFloat_def parseInt_def stripSign_def isWhiteSpace_def isDigit_def digitsVal_def
  digitVal_def pow10_def exponentPart_def truthy_def ToString_def isNaN_def js_gt_def
  trim_def

lemmas rule_defs =
  missingRequired_def invalidNumber_def priceAboveMrp_def negativeQuantity_def
  parsedMrp_def parsedPrice_def parsedQuantity_def validatedProduct_def

lemmas row_eval = mkRow_def header_def


section \<open>The row validator\<close>

text \<open>The callback is the Row Validator followed by one of the two pushes.\<close>

lemma onData_validateRow:
  "onData r st = (case validateRow r of Inl why \<Rightarrow> rejected st r why | Inr p \<Rightarrow> accepted st p)"
  by (cases "parsedQuantity r")
    (auto simp: onData_def validateRow_def rule_defs rejected_def accepted_def Let_def)

lemma rejected_neq_accepted: "rejected st r why \<noteq> accepted st p"
proof
  assume "rejected st r why = accepted st p"
  then have "length (failedValidation (rejected st r why)) = length (failedValidation (accepted st p))"
    by simp
  then show False by (simp add: rejected_def accepted_def)
qed

lemma rejected_inject: "rejected st r why = rejected st r why' \<longleftrightarrow> why = why'"
proof
  assume "rejected st r why = rejected st r why'"
  then have "failedValidation (rejected st r why) = failedValidation (rejected st r why')"
    by simp
  then show "why = why'" by (simp add: rejected_def)
qed simp

lemma accepted_inject: "accepted st p = accepted st p' \<longleftrightarrow> p = p'"
proof
  assume "accepted st p = accepted st p'"
  then have "validProducts (accepted st p) = validProducts (accepted st p')"
    by simp
  then show "p = p'" by (simp add: accepted_def)
qed simp

lemma validateRow_taxonomy: "validateRow r = Inl why \<Longrightarrow> why \<in> set taxonomy"
  by (auto simp: validateRow_def taxonomy_def split: if_splits)

text \<open>
  C1. For every Raw Row the callback tests the four rules in the order required fields,
  numeric format, price ceiling, non-negative quantity. The first rule that fails gives
  the reason of the one Rejection Record that is appended, whatever the later rules
  would say; when none fails, the one Validated Product is appended. A row never gets
  both outcomes.
\<close>

theorem validator_first_failing_rule:
  "onData r st =
     (if missingRequired r then rejected st r ''Missing required fields.''
      else if invalidNumber r then
        rejected st r ''Invalid number format for MRP, Price, or Quantity.''
      else if priceAboveMrp r then rejected st r ''Price cannot be greater than MRP.''
      else if negativeQuantity r then rejected st r ''Quantity can't be negative.''
      else accepted st (validatedProduct r))
   \<and> (\<forall>why p. rejected st r why \<noteq> accepted st p)"
  by (simp add: onData_validateRow validateRow_def rejected_neq_accepted)

theorem validator_first_failing_rule_witness:
  "missingRequired manyFaultsRow \<and> priceAboveMrp manyFaultsRow \<and> negativeQuantity manyFaultsRow
   \<and> onData manyFaultsRow init_state =
       rejected init_state manyFaultsRow ''Missing required fields.''
   \<and> \<not> missingRequired negQtyRow \<and> \<not> invalidNumber negQtyRow \<and> \<not> priceAboveMrp negQtyRow
   \<and> onData negQtyRow init_state = rejected init_state negQtyRow ''Quantity can't be negative.''"
proof -
  have a: "missingRequired manyFaultsRow" "priceAboveMrp manyFaultsRow"
    "negativeQuantity manyFaultsRow"
    by (simp_all add: rule_defs manyFaultsRow_def row_eval js_eval)
  have b: "\<not> missingRequired negQtyRow" "\<not> invalidNumber negQtyRow" "\<not> priceAboveMrp negQtyRow"
    "negativeQuantity negQtyRow"
    by (simp_all add: rule_defs negQtyRow_def row_eval js_eval)
  show ?thesis
    using a b validator_first_failing_rule [of manyFaultsRow init_state]
      validator_first_failing_rule [of negQtyRow init_state]
    by simp
qed

lemma takeWhile_Nil_iff: "takeWhile P xs = [] \<longleftrightarrow> (case xs of [] \<Rightarrow> True | x # _ \<Rightarrow> \<not> P x)"
  by (cases xs) auto

lemma dot_no_digit: "\<not> isDigit CHR ''.''"
  by (simp add: isDigit_def)

lemma parseFloat_NaN_iff: "parseFloat s = NaN \<longleftrightarrow> \<not> startsNumber s"
proof -
  obtain neg u where su: "stripSign (dropWhile isWhiteSpace s) = (neg, u)"
    by (cases "stripSign (dropWhile isWhiteSpace s)")
  show ?thesis
  proof (cases "prefix ''Infinity'' u")
    case True
    then show ?thesis by (simp add: parseFloat_def startsNumber_def su)
  next
    case False
    show ?thesis
    proof (cases u)
      case Nil
      then show ?thesis by (simp add: parseFloat_def startsNumber_def su)
    next
      case (Cons c r)
      show ?thesis
      proof (cases "isDigit c")
        case True
        with Cons False show ?thesis
          by (simp add: parseFloat_def startsNumber_def su Let_def split: prod.splits)
      next
        case nd: False
        show ?thesis
        proof (cases "c = CHR ''.''")
          case True
          with Cons False nd show ?thesis
            by (simp add: parseFloat_def startsNumber_def su Let_def takeWhile_Nil_iff
                split: list.splits)
        next
          case False
          with Cons \<open>\<not> prefix ''Infinity'' u\<close> nd show ?thesis
            by (simp add: parseFloat_def startsNumber_def su Let_def)
        qed
      qed
    qed
  qed
qed

lemma parseInt_None_iff: "parseInt s = None \<longleftrightarrow> \<not> startsInteger s"
  by (simp add: parseInt_def startsInteger_def Let_def takeWhile_Nil_iff
      split: prod.splits list.splits)

lemma missingRequired_iff: "missingRequired r \<longleftrightarrow> absentOrEmpty r"
  by (auto simp: missingRequired_def absentOrEmpty_def truthy_def split: option.splits)

text \<open>
  C3 as the specification states it, with trimming, fails: a row whose sku is one space
  is empty after trimming, yet the callback accepts it, and the product carries the
  sku with its space.
\<close>

theorem required_fields_trim_counterexample:
  "spec_missingRequired blankSkuRow
   \<and> onData blankSkuRow init_state = accepted init_state (validatedProduct blankSkuRow)
   \<and> failedValidation (onData blankSkuRow init_state) = []
   \<and> validatedProduct blankSkuRow ''sku'' = Some (Str '' '')
   \<and> trim '' '' = []"
proof -
  have "\<not> missingRequired blankSkuRow" "\<not> invalidNumber blankSkuRow"
    "\<not> priceAboveMrp blankSkuRow" "\<not> negativeQuantity blankSkuRow"
    by (simp_all add: rule_defs blankSkuRow_def row_eval js_eval)
  then have "onData blankSkuRow init_state = accepted init_state (validatedProduct blankSkuRow)"
    by (simp add: onData_validateRow validateRow_def)
  moreover have "spec_missingRequired blankSkuRow"
    by (simp add: spec_missingRequired_def spec_emptyAfterTrim_def blankSkuRow_def row_eval
        js_eval)
  moreover have "validatedProduct blankSkuRow ''sku'' = Some (Str '' '')"
    by (simp add: validatedProduct_def blankSkuRow_def row_eval)
  moreover have "trim '' '' = []"
    by (simp add: js_eval)
  ultimately show ?thesis
    by (simp add: accepted_def init_state_def)
qed

text \<open>
  C3, amended. The callback rejects a row with the reason "Missing required fields."
  exactly when one of sku, name, brand, mrp, price is absent or the empty string as
  read, with no trimming; and when it accepts the row, every field of the product other
  than mrp, price and quantity is the row's string, unchanged.
\<close>

theorem required_fields_as_read:
  "(onData r st = rejected st r ''Missing required fields.'' \<longleftrightarrow> absentOrEmpty r)
   \<and> (\<forall>p k. onData r st = accepted st p \<and> k \<notin> {''mrp'', ''price'', ''quantity''}
          \<longrightarrow> p k = map_option Str (r k))"
proof (intro conjI allI impI)
  show "onData r st = rejected st r ''Missing required fields.'' \<longleftrightarrow> absentOrEmpty r"
    by (simp add: onData_validateRow validateRow_def missingRequired_iff rejected_inject
        rejected_neq_accepted [symmetric])
next
  fix p k
  assume a: "onData r st = accepted st p \<and> k \<notin> {''mrp'', ''price'', ''quantity''}"
  then have "p = validatedProduct r"
    by (simp add: onData_validateRow validateRow_def rejected_neq_accepted accepted_inject
        split: if_splits)
  with a show "p k = map_option Str (r k)"
    by (simp add: validatedProduct_def)
qed

theorem required_fields_as_read_witness:
  "absentOrEmpty missingNameRow
   \<and> onData missingNameRow init_state =
       rejected init_state missingNameRow ''Missing required fields.''
   \<and> \<not> absentOrEmpty blankSkuRow
   \<and> onData blankSkuRow init_state \<noteq> rejected init_state blankSkuRow ''Missing required fields.''
   \<and> onData validRow init_state = accepted init_state (validatedProduct validRow)
   \<and> validatedProduct validRow ''name'' = Some (Str ''Valid Product'')"
proof -
  have a: "absentOrEmpty missingNameRow"
    by (simp add: absentOrEmpty_def missingNameRow_def row_eval)
  have b: "\<not> absentOrEmpty blankSkuRow"
    by (simp add: absentOrEmpty_def blankSkuRow_def row_eval)
  have "\<not> missingRequired validRow" "\<not> invalidNumber validRow"
    "\<not> priceAboveMrp validRow" "\<not> negativeQuantity validRow"
    by (simp_all add: rule_defs validRow_def row_eval js_eval)
  then have c: "onData validRow init_state = accepted init_state (validatedProduct validRow)"
    by (simp add: onData_validateRow validateRow_def)
  have d: "map_option Str (validRow ''name'') = Some (Str ''Valid Product'')"
    by (simp add: validRow_def row_eval)
  have e: "''name'' \<notin> {''mrp'', ''price'', ''quantity''}"
    by simp
  note t1 = required_fields_as_read [of missingNameRow init_state, THEN conjunct1]
  note t2 = required_fields_as_read [of blankSkuRow init_state, THEN conjunct1]
  note t3 = required_fields_as_read [of validRow init_state, THEN conjunct2, rule_format,
      of "validatedProduct validRow" "''name''"]
  have f: "onData missingNameRow init_state =
      rejected init_state missingNameRow ''Missing required fields.''"
    using a t1 by (rule_tac iffD2)
  have g: "onData blankSkuRow init_state \<noteq>
      rejected init_state blankSkuRow ''Missing required fields.''"
    using b t2 by blast
  have h: "validatedProduct validRow ''name'' = Some (Str ''Valid Product'')"
    using t3 [OF conjI [OF c e]] d by (rule trans)
  from a f b g c h show ?thesis
    by (intro conjI)
qed

text \<open>
  C4 as the specification states it fails on the last part: an mrp of \<open>Infinity\<close> parses
  to an infinite value and the row is accepted, not rejected.
\<close>

theorem numeric_format_infinity_counterexample:
  "\<not> missingRequired infiniteMrpRow
   \<and> parsedMrp infiniteMrpRow = PosInf
   \<and> onData infiniteMrpRow init_state = accepted init_state (validatedProduct infiniteMrpRow)
   \<and> failedValidation (onData infiniteMrpRow init_state) = []"
proof -
  have a: "\<not> missingRequired infiniteMrpRow" "\<not> invalidNumber infiniteMrpRow"
    "\<not> priceAboveMrp infiniteMrpRow" "\<not> negativeQuantity infiniteMrpRow"
    "parsedMrp infiniteMrpRow = PosInf"
    by (simp_all add: rule_defs infiniteMrpRow_def row_eval js_eval)
  then have "onData infiniteMrpRow init_state =
      accepted init_state (validatedProduct infiniteMrpRow)"
    by (simp add: onData_validateRow validateRow_def)
  with a show ?thesis
    by (simp add: accepted_def init_state_def)
qed

text \<open>
  C4, amended. For a row that passes the required-fields check, the callback rejects it
  with the reason "Invalid number format for MRP, Price, or Quantity." exactly when
  \<open>parseFloat\<close> of mrp or of price is \<open>NaN\<close> or \<open>parseInt\<close> of quantity (0 when absent or
  empty) is \<open>NaN\<close>; that is, when mrp or price does not start with a decimal number or
  \<open>Infinity\<close>, or quantity does not start with an integer. An infinite mrp or price is
  not rejected by this check.
\<close>

theorem numeric_format_nan_only:
  assumes "\<not> missingRequired r"
  shows "(onData r st = rejected st r ''Invalid number format for MRP, Price, or Quantity.''
            \<longleftrightarrow> parsedMrp r = NaN \<or> parsedPrice r = NaN \<or> parsedQuantity r = None)
         \<and> (parsedMrp r = NaN \<longleftrightarrow> \<not> startsNumber (the (r ''mrp'')))
         \<and> (parsedPrice r = NaN \<longleftrightarrow> \<not> startsNumber (the (r ''price'')))
         \<and> (parsedQuantity r = None \<longleftrightarrow>
              truthy (r ''quantity'') \<and> \<not> startsInteger (the (r ''quantity'')))"
proof -
  from assms obtain m p where mp: "r ''mrp'' = Some m" "r ''price'' = Some p"
    by (auto simp: missingRequired_def truthy_def split: option.splits)
  have zero: "startsInteger ''0''"
    by (simp add: startsInteger_def js_eval)
  have "onData r st = rejected st r ''Invalid number format for MRP, Price, or Quantity.''
      \<longleftrightarrow> invalidNumber r"
    using assms
    by (simp add: onData_validateRow validateRow_def rejected_inject
        rejected_neq_accepted [symmetric])
  moreover have "parsedQuantity r = None \<longleftrightarrow>
      truthy (r ''quantity'') \<and> \<not> startsInteger (the (r ''quantity''))"
    using zero
    by (auto simp: parsedQuantity_def parseInt_None_iff truthy_def ToString_def
        split: option.splits)
  ultimately show ?thesis
    using mp
    by (simp add: invalidNumber_def isNaN_def parsedMrp_def parsedPrice_def parseFloat_NaN_iff
        ToString_def)
qed

theorem numeric_format_nan_only_witness:
  "\<not> missingRequired badNumberRow
   \<and> parsedPrice badNumberRow = NaN
   \<and> onData badNumberRow init_state =
       rejected init_state badNumberRow ''Invalid number format for MRP, Price, or Quantity.''
   \<and> \<not> missingRequired infiniteMrpRow
   \<and> parsedMrp infiniteMrpRow = PosInf
   \<and> onData infiniteMrpRow init_state \<noteq>
       rejected init_state infiniteMrpRow ''Invalid number format for MRP, Price, or Quantity.''"
proof -
  have a: "\<not> missingRequired badNumberRow" "parsedPrice badNumberRow = NaN"
    by (simp_all add: rule_defs badNumberRow_def row_eval js_eval)
  have b: "\<not> missingRequired infiniteMrpRow" "parsedMrp infiniteMrpRow = PosInf"
    "parsedPrice infiniteMrpRow \<noteq> NaN" "parsedQuantity infiniteMrpRow \<noteq> None"
    by (simp_all add: rule_defs infiniteMrpRow_def row_eval js_eval)
  show ?thesis
    using a b numeric_format_nan_only [OF a(1), of init_state]
      numeric_format_nan_only [OF b(1), of init_state]
    by simp
qed

section \<open>The pipeline\<close>

lemma validateRow_Inr: "validateRow r = Inr p \<Longrightarrow> p = validatedProduct r"
  by (auto simp: validateRow_def split: if_splits)

lemma onRows_Nil: "onRows [] st = st"
  by (simp add: onRows_def)

lemma onRows_Cons: "onRows (r # rs) st = onRows rs (onData r st)"
  by (simp add: onRows_def)

lemma onRows_append: "onRows (rs @ rs') st = onRows rs' (onRows rs st)"
  by (simp add: onRows_def)

lemma onRows_rowCount: "rowCount (onRows rs st) = rowCount st + length rs"
proof (induction rs arbitrary: st)
  case Nil
  show ?case by (simp add: onRows_Nil)
next
  case (Cons r rs)
  have "rowCount (onData r st) = rowCount st + 1"
    by (cases "validateRow r") (simp_all add: onData_validateRow rejected_def accepted_def)
  with Cons show ?case by (simp add: onRows_Cons)
qed

lemma onRows_validProducts:
  "validProducts (onRows rs st) = validProducts st @ acceptedProducts rs"
proof (induction rs arbitrary: st)
  case Nil
  show ?case by (simp add: onRows_Nil acceptedProducts_def)
next
  case (Cons r rs)
  show ?case
  proof (cases "validateRow r")
    case (Inl why)
    then have "validProducts (onData r st) = validProducts st"
      by (simp add: onData_validateRow rejected_def)
    with Inl Cons show ?thesis
      by (simp add: onRows_Cons acceptedProducts_def)
  next
    case (Inr p)
    then have "validProducts (onData r st) = validProducts st @ [validatedProduct r]"
      using validateRow_Inr [OF Inr] by (simp add: onData_validateRow accepted_def)
    with Inr Cons show ?thesis
      by (simp add: onRows_Cons acceptedProducts_def)
  qed
qed

lemma onRows_failedValidation:
  "failedValidation (onRows rs st) = failedValidation st @ rejectionsFrom (rowCount st) rs"
proof (induction rs arbitrary: st)
  case Nil
  show ?case by (simp add: onRows_Nil)
next
  case (Cons r rs)
  show ?case
  proof (cases "validateRow r")
    case (Inl why)
    then have "failedValidation (onData r st) =
        failedValidation st @ [\<lparr>row = rowCount st + 1, data = r, reason = why\<rparr>]"
      and "rowCount (onData r st) = rowCount st + 1"
      by (simp_all add: onData_validateRow rejected_def)
    with Inl Cons show ?thesis
      by (simp add: onRows_Cons)
  next
    case (Inr p)
    then have "failedValidation (onData r st) = failedValidation st"
      and "rowCount (onData r st) = rowCount st + 1"
      by (simp_all add: onData_validateRow accepted_def)
    with Inr Cons show ?thesis
      by (simp add: onRows_Cons)
  qed
qed

lemma length_rejectionsFrom: "length (rejectionsFrom n rs) = length (rejectedRows rs)"
  by (induction rs arbitrary: n) (auto simp: rejectedRows_def split: sum.splits)

lemma accepted_plus_rejected:
  "length (acceptedProducts rs) + length (rejectedRows rs) = length rs"
  using sum_length_filter_compl [of "\<lambda>r. isl (validateRow r)" rs]
  by (simp add: acceptedProducts_def rejectedRows_def)

lemma onEnd_onRows:
  "onEnd bw (onRows rows init_state) db =
     (if acceptedProducts rows = [] then (summaryOf rows, db, [])
      else
        (case bw (map mkOperation (acceptedProducts rows)) db of
           (None, db') \<Rightarrow> (summaryOf rows, db', [map mkOperation (acceptedProducts rows)])
         | (Some msg, db') \<Rightarrow>
             ((500, Failure ''Error storing Product Details in the database.'' msg), db',
              [map mkOperation (acceptedProducts rows)])))"
proof -
  have v: "validProducts (onRows rows init_state) = acceptedProducts rows"
    by (simp add: onRows_validProducts init_state_def)
  have f: "failedValidation (onRows rows init_state) = rejectionsFrom 0 rows"
    by (simp add: onRows_failedValidation init_state_def)
  show ?thesis
    by (simp add: onEnd_def v f summaryOf_def length_rejectionsFrom Let_def
        split: prod.splits option.splits)
qed

lemma acceptedProducts_from_rows:
  "p \<in> set (acceptedProducts rows) \<Longrightarrow> \<exists>r \<in> set rows. validateRow r = Inr p"
  by (auto simp: acceptedProducts_def validateRow_def split: if_splits)

text \<open>
  C2. When the decoded stream ends, the handler sends one batch to the store if the
  accepted set is non-empty and none otherwise; the batch holds one operation per
  accepted product, in order, and each of them comes from a row that passed the
  validator; and unless the store throws, the response is the summary whose \<open>stored\<close>
  is the size of the accepted set and whose \<open>failed\<close> is the size of the rejected set.
  This holds for every behaviour \<open>bw\<close> of the store.
\<close>

theorem one_batch_of_accepted_products:
  "uploadProducts bw (Some (rows, End)) db =
     (if acceptedProducts rows = [] then (summaryOf rows, db, [])
      else
        (case bw (map mkOperation (acceptedProducts rows)) db of
           (None, db') \<Rightarrow> (summaryOf rows, db', [map mkOperation (acceptedProducts rows)])
         | (Some msg, db') \<Rightarrow>
             ((500, Failure ''Error storing Product Details in the database.'' msg), db',
              [map mkOperation (acceptedProducts rows)])))
   \<and> (length (snd (snd (uploadProducts bw (Some (rows, End)) db))) = 1
        \<longleftrightarrow> acceptedProducts rows \<noteq> [])
   \<and> length (snd (snd (uploadProducts bw (Some (rows, End)) db))) \<le> 1
   \<and> (\<forall>ops \<in> set (snd (snd (uploadProducts bw (Some (rows, End)) db))).
         map update_set ops = acceptedProducts rows
         \<and> (\<forall>op \<in> set ops. \<exists>r \<in> set rows. validateRow r = Inr (update_set op)))
   \<and> summaryOf rows =
       (201, Summary ''CSV data processed successfully.''
               (length (acceptedProducts rows)) (length (rejectedRows rows))
               (failedValidation (onRows rows init_state)))
   \<and> length (acceptedProducts rows) + length (rejectedRows rows) = length rows"
proof -
  let ?ops = "map mkOperation (acceptedProducts rows)"
  have u: "uploadProducts bw (Some (rows, End)) db = onEnd bw (onRows rows init_state) db"
    by (simp add: uploadProducts_def)
  have s: "map update_set ?ops = acceptedProducts rows"
    by (simp add: mkOperation_def comp_def)
  have o: "\<forall>op \<in> set ?ops. \<exists>r \<in> set rows. validateRow r = Inr (update_set op)"
    using acceptedProducts_from_rows by (auto simp: mkOperation_def)
  have calls: "snd (snd (uploadProducts bw (Some (rows, End)) db)) =
      (if acceptedProducts rows = [] then [] else [?ops])"
    by (simp add: u onEnd_onRows split: prod.splits option.splits)
  have f: "failedValidation (onRows rows init_state) = rejectionsFrom 0 rows"
    by (simp add: onRows_failedValidation init_state_def)
  show ?thesis
  proof (intro conjI)
    show "uploadProducts bw (Some (rows, End)) db =
     (if acceptedProducts rows = [] then (summaryOf rows, db, [])
      else
        (case bw ?ops db of
           (None, db') \<Rightarrow> (summaryOf rows, db', [?ops])
         | (Some msg, db') \<Rightarrow>
             ((500, Failure ''Error storing Product Details in the database.'' msg), db',
              [?ops])))"
      by (simp only: u onEnd_onRows)
    show "length (snd (snd (uploadProducts bw (Some (rows, End)) db))) = 1
        \<longleftrightarrow> acceptedProducts rows \<noteq> []"
      by (simp add: calls)
    show "length (snd (snd (uploadProducts bw (Some (rows, End)) db))) \<le> 1"
      by (simp add: calls)
    show "\<forall>ops \<in> set (snd (snd (uploadProducts bw (Some (rows, End)) db))).
         map update_set ops = acceptedProducts rows
         \<and> (\<forall>op \<in> set ops. \<exists>r \<in> set rows. validateRow r = Inr (update_set op))"
      using s o by (simp add: calls)
    show "summaryOf rows =
       (201, Summary ''CSV data processed successfully.''
               (length (acceptedProducts rows)) (length (rejectedRows rows))
               (failedValidation (onRows rows init_state)))"
      by (simp add: summaryOf_def f)
    show "length (acceptedProducts rows) + length (rejectedRows rows) = length rows"
      by (rule accepted_plus_rejected)
  qed
qed

lemma validateRow_validRow: "validateRow validRow = Inr (validatedProduct validRow)"
  by (simp add: validateRow_def rule_defs validRow_def row_eval js_eval)

lemma validateRow_highPriceRow: "validateRow highPriceRow = Inl ''Price cannot be greater than MRP.''"
  by (simp add: validateRow_def rule_defs highPriceRow_def row_eval js_eval)

lemma validateRow_negQtyRow: "validateRow negQtyRow = Inl ''Quantity can't be negative.''"
  by (simp add: validateRow_def rule_defs negQtyRow_def row_eval js_eval)

lemma validateRow_missingNameRow: "validateRow missingNameRow = Inl ''Missing required fields.''"
  by (simp add: validateRow_def rule_defs missingNameRow_def row_eval js_eval)

lemma validateRow_badNumberRow:
  "validateRow badNumberRow = Inl ''Invalid number format for MRP, Price, or Quantity.''"
  by (simp add: validateRow_def rule_defs badNumberRow_def row_eval js_eval)

lemmas validateRow_testFile =
  validateRow_validRow validateRow_highPriceRow validateRow_negQtyRow
  validateRow_missingNameRow validateRow_badNumberRow

lemma acceptedProducts_testFile: "acceptedProducts testFile = [validatedProduct validRow]"
  by (simp add: acceptedProducts_def testFile_def validateRow_testFile)

lemma rejectedRows_testFile:
  "rejectedRows testFile = [highPriceRow, negQtyRow, missingNameRow, badNumberRow]"
  by (simp add: rejectedRows_def testFile_def validateRow_testFile)

lemma rejectionsFrom_testFile:
  "rejectionsFrom 0 testFile =
     [\<lparr>row = 2, data = highPriceRow, reason = ''Price cannot be greater than MRP.''\<rparr>,
      \<lparr>row = 3, data = negQtyRow, reason = ''Quantity can't be negative.''\<rparr>,
      \<lparr>row = 4, data = missingNameRow, reason = ''Missing required fields.''\<rparr>,
      \<lparr>row = 5, data = badNumberRow,
        reason = ''Invalid number format for MRP, Price, or Quantity.''\<rparr>]"
  by (simp add: testFile_def validateRow_testFile)

theorem one_batch_of_accepted_products_witness:
  "acceptedProducts testFile = [validatedProduct validRow]
   \<and> uploadProducts okStore (Some (testFile, End)) 0 =
       ((201, Summary ''CSV data processed successfully.'' 1 4
                (failedValidation (onRows testFile init_state))),
        1, [[mkOperation (validatedProduct validRow)]])
   \<and> uploadProducts downStore (Some (testFile, End)) 0 =
       ((500, Failure ''Error storing Product Details in the database.'' ''connection lost''),
        0, [[mkOperation (validatedProduct validRow)]])
   \<and> map update_set (hd (snd (snd (uploadProducts okStore (Some (testFile, End)) 0)))) =
       [validatedProduct validRow]
   \<and> uploadProducts okStore (Some ([missingNameRow], End)) 0 =
       ((201, Summary ''CSV data processed successfully.'' 0 1
                (failedValidation (onRows [missingNameRow] init_state))),
        0, [])"
proof -
  note ok = one_batch_of_accepted_products [of okStore testFile 0]
  note down = one_batch_of_accepted_products [of downStore testFile 0]
  note none = one_batch_of_accepted_products [of okStore "[missingNameRow]" 0]
  have s: "summaryOf testFile =
      (201, Summary ''CSV data processed successfully.'' 1 4
              (failedValidation (onRows testFile init_state)))"
    using ok by (simp add: acceptedProducts_testFile rejectedRows_testFile)
  have a: "uploadProducts okStore (Some (testFile, End)) 0 =
      (summaryOf testFile, 1, [[mkOperation (validatedProduct validRow)]])"
    using ok [THEN conjunct1] by (simp add: acceptedProducts_testFile okStore_def)
  have b: "uploadProducts downStore (Some (testFile, End)) 0 =
       ((500, Failure ''Error storing Product Details in the database.'' ''connection lost''),
        0, [[mkOperation (validatedProduct validRow)]])"
    using down [THEN conjunct1] by (simp add: acceptedProducts_testFile downStore_def)
  have e: "acceptedProducts [missingNameRow] = []" "rejectedRows [missingNameRow] = [missingNameRow]"
    by (simp_all add: acceptedProducts_def rejectedRows_def validateRow_missingNameRow)
  have c: "summaryOf [missingNameRow] =
      (201, Summary ''CSV data processed successfully.'' 0 1
              (failedValidation (onRows [missingNameRow] init_state)))"
    using none by (simp add: e)
  have d: "uploadProducts okStore (Some ([missingNameRow], End)) 0 =
      (summaryOf [missingNameRow], 0, [])"
    using none [THEN conjunct1] by (simp add: e)
  have f: "map update_set (hd (snd (snd (uploadProducts okStore (Some (testFile, End)) 0)))) =
       [validatedProduct validRow]"
    by (simp add: a mkOperation_def)
  show ?thesis
    using acceptedProducts_testFile a b c d f by (simp only: s simp_thms)
qed

lemma rejectionsFrom_bounds:
  "x \<in> set (rejectionsFrom n rs) \<Longrightarrow>
     n < row x \<and> row x \<le> n + length rs \<and> data x = rs ! (row x - n - 1)
     \<and> validateRow (data x) = Inl (reason x)"
proof (induction rs arbitrary: n)
  case Nil
  then show ?case by simp
next
  case (Cons r rs)
  have tail: ?case if t: "x \<in> set (rejectionsFrom (n + 1) rs)"
  proof -
    from Cons.IH [OF t]
    have b: "n + 1 < row x" "row x \<le> n + 1 + length rs"
      "data x = rs ! (row x - (n + 1) - 1)" "validateRow (data x) = Inl (reason x)"
      by blast+
    from b(1) obtain m where m: "row x - n - 1 = Suc m" "row x - (n + 1) - 1 = m"
      by (cases "row x - n - 1") auto
    then have "(r # rs) ! (row x - n - 1) = rs ! (row x - (n + 1) - 1)"
      by simp
    with b show ?thesis by simp
  qed
  show ?case
  proof (cases "validateRow r")
    case (Inl why)
    with Cons.prems
    have "x = \<lparr>row = n + 1, data = r, reason = why\<rparr> \<or> x \<in> set (rejectionsFrom (n + 1) rs)"
      by simp
    then show ?thesis
    proof
      assume "x = \<lparr>row = n + 1, data = r, reason = why\<rparr>"
      with Inl show ?thesis by simp
    next
      assume "x \<in> set (rejectionsFrom (n + 1) rs)"
      then show ?thesis by (rule tail)
    qed
  next
    case (Inr p)
    with Cons.prems have "x \<in> set (rejectionsFrom (n + 1) rs)"
      by simp
    then show ?thesis by (rule tail)
  qed
qed

lemma rejectionsFrom_sorted: "sorted_wrt (<) (map row (rejectionsFrom n rs))"
proof (induction rs arbitrary: n)
  case Nil
  show ?case by simp
next
  case (Cons r rs)
  have "\<forall>x \<in> set (rejectionsFrom (n + 1) rs). n + 1 < row x"
    using rejectionsFrom_bounds by blast
  with Cons [of "n + 1"] show ?case
    by (auto simp: sorted_wrt_append split: sum.splits)
qed

lemma rejectionsFrom_complete:
  "i < length rs \<Longrightarrow> validateRow (rs ! i) = Inl why \<Longrightarrow>
     \<lparr>row = n + i + 1, data = rs ! i, reason = why\<rparr> \<in> set (rejectionsFrom n rs)"
proof (induction rs arbitrary: n i)
  case Nil
  then show ?case by simp
next
  case (Cons r rs)
  show ?case
  proof (cases i)
    case 0
    with Cons.prems show ?thesis by simp
  next
    case (Suc j)
    with Cons.prems have "j < length rs" "validateRow (rs ! j) = Inl why"
      by simp_all
    from Cons.IH [OF this, of "n + 1"] Suc show ?thesis
      by simp
  qed
qed

lemma rejectionsFrom_append:
  "rejectionsFrom n (rs @ rs') = rejectionsFrom n rs @ rejectionsFrom (n + length rs) rs'"
  by (induction rs arbitrary: n) simp_all

text \<open>
  C5. The Rejection Records of an upload carry the 1-based ordinal of the row they
  reject among the rows of the file (the header is no row), with that row and the
  reason the validator gives for it; every rejected row has its record; the ordinals in
  the list are strictly ascending; and the records of the first rows of a file do not
  depend on the rows that follow: the state after a row is the callback applied to the
  state before it. The list in the summary is this list.
\<close>

theorem rejections_in_file_order:
  "(\<forall>x \<in> set (failedValidation (onRows rows init_state)).
      1 \<le> row x \<and> row x \<le> length rows \<and> data x = rows ! (row x - 1)
      \<and> validateRow (data x) = Inl (reason x))
   \<and> (\<forall>i why. i < length rows \<and> validateRow (rows ! i) = Inl why \<longrightarrow>
         \<lparr>row = i + 1, data = rows ! i, reason = why\<rparr>
           \<in> set (failedValidation (onRows rows init_state)))
   \<and> sorted_wrt (<) (map row (failedValidation (onRows rows init_state)))
   \<and> (\<forall>more. prefix (failedValidation (onRows rows init_state))
                 (failedValidation (onRows (rows @ more) init_state)))
   \<and> (\<forall>r. onRows (rows @ [r]) init_state = onData r (onRows rows init_state))
   \<and> (\<forall>m s f details. fst (uploadProducts bw (Some (rows, End)) db) = (201, Summary m s f details)
         \<longrightarrow> details = failedValidation (onRows rows init_state))"
proof -
  have f: "\<And>rs. failedValidation (onRows rs init_state) = rejectionsFrom 0 rs"
    by (simp add: onRows_failedValidation init_state_def)
  have 1: "\<forall>x \<in> set (rejectionsFrom 0 rows).
      1 \<le> row x \<and> row x \<le> length rows \<and> data x = rows ! (row x - 1)
      \<and> validateRow (data x) = Inl (reason x)"
    using rejectionsFrom_bounds [of _ 0 rows] by fastforce
  have 2: "\<forall>i why. i < length rows \<and> validateRow (rows ! i) = Inl why \<longrightarrow>
         \<lparr>row = i + 1, data = rows ! i, reason = why\<rparr> \<in> set (rejectionsFrom 0 rows)"
    using rejectionsFrom_complete [of _ rows _ 0] by simp
  have 4: "\<forall>more. prefix (rejectionsFrom 0 rows) (rejectionsFrom 0 (rows @ more))"
    by (simp add: rejectionsFrom_append)
  have 5: "\<forall>r. onRows (rows @ [r]) init_state = onData r (onRows rows init_state)"
    by (simp add: onRows_append onRows_Cons onRows_Nil)
  have 6: "\<forall>m s f details. fst (uploadProducts bw (Some (rows, End)) db) = (201, Summary m s f details)
         \<longrightarrow> details = rejectionsFrom 0 rows"
    by (auto simp: uploadProducts_def onEnd_onRows summaryOf_def split: prod.splits option.splits
        if_splits)
  show ?thesis
    unfolding f using 1 2 rejectionsFrom_sorted [of 0 rows] 4 5 6 by (intro conjI)
qed

theorem rejections_in_file_order_witness:
  "failedValidation (onRows testFile init_state) =
     [\<lparr>row = 2, data = highPriceRow, reason = ''Price cannot be greater than MRP.''\<rparr>,
      \<lparr>row = 3, data = negQtyRow, reason = ''Quantity can't be negative.''\<rparr>,
      \<lparr>row = 4, data = missingNameRow, reason = ''Missing required fields.''\<rparr>,
      \<lparr>row = 5, data = badNumberRow,
        reason = ''Invalid number format for MRP, Price, or Quantity.''\<rparr>]
   \<and> sorted_wrt (<) (map row (failedValidation (onRows testFile init_state)))
   \<and> testFile ! 1 = highPriceRow
   \<and> validateRow (testFile ! 1) = Inl ''Price cannot be greater than MRP.''
   \<and> \<lparr>row = 2, data = testFile ! 1, reason = ''Price cannot be greater than MRP.''\<rparr>
        \<in> set (failedValidation (onRows testFile init_state))"
proof -
  note t = rejections_in_file_order [of testFile okStore 0]
  have a: "failedValidation (onRows testFile init_state) = rejectionsFrom 0 testFile"
    by (simp add: onRows_failedValidation init_state_def)
  have b: "testFile ! 1 = highPriceRow" "(1::nat) < length testFile"
    by (simp_all add: testFile_def)
  have c: "validateRow (testFile ! 1) = Inl ''Price cannot be greater than MRP.''"
    by (simp only: b(1) validateRow_highPriceRow)
  from t have s: "sorted_wrt (<) (map row (failedValidation (onRows testFile init_state)))"
    by (elim conjE)
  from t have "\<forall>i why. i < length testFile \<and> validateRow (testFile ! i) = Inl why \<longrightarrow>
         \<lparr>row = i + 1, data = testFile ! i, reason = why\<rparr>
           \<in> set (failedValidation (onRows testFile init_state))"
    by (elim conjE)
  from this [rule_format, of 1, OF conjI [OF b(2) c]]
  have m: "\<lparr>row = 2, data = testFile ! 1, reason = ''Price cannot be greater than MRP.''\<rparr>
        \<in> set (failedValidation (onRows testFile init_state))"
    by (simp add: numeral_2_eq_2)
  from a rejectionsFrom_testFile
  have v: "failedValidation (onRows testFile init_state) =
     [\<lparr>row = 2, data = highPriceRow, reason = ''Price cannot be greater than MRP.''\<rparr>,
      \<lparr>row = 3, data = negQtyRow, reason = ''Quantity can't be negative.''\<rparr>,
      \<lparr>row = 4, data = missingNameRow, reason = ''Missing required fields.''\<rparr>,
      \<lparr>row = 5, data = badNumberRow,
        reason = ''Invalid number format for MRP, Price, or Quantity.''\<rparr>]"
    by (rule trans)
  from v s b(1) c m show ?thesis
    by (intro conjI)
qed

section \<open>The listing\<close>

lemma parseInt_undefined: "parseInt ''undefined'' = None"
  by (simp add: js_eval)

lemma requested_orDefault:
  "requested v dflt n \<Longrightarrow> n \<noteq> 0 \<Longrightarrow> orDefault (parseInt (ToString v)) dflt = n"
  by (cases v) (simp_all add: requested_def orDefault_def ToString_def parseInt_undefined)

lemma totalPages_bounds:
  fixes l :: int
  assumes "1 \<le> l"
  shows "int n \<le> \<lceil>(of_nat n :: rat) / of_int l\<rceil> * l
         \<and> (\<lceil>(of_nat n :: rat) / of_int l\<rceil> - 1) * l < int n"
proof -
  let ?t = "\<lceil>(of_nat n :: rat) / of_int l\<rceil>"
  from assms have pos: "(0 :: rat) < of_int l" by simp
  have "(of_nat n :: rat) \<le> of_int ?t * of_int l"
    by (rule ceiling_divide_upper [OF pos])
  then have "(of_int (int n) :: rat) \<le> of_int (?t * l)"
    by simp
  then have a: "int n \<le> ?t * l"
    by (simp only: of_int_le_iff)
  have "(of_int ?t - 1) * of_int l < (of_nat n :: rat)"
    by (rule ceiling_divide_lower [OF pos])
  then have "(of_int ((?t - 1) * l) :: rat) < of_int (int n)"
    by simp
  then have b: "(?t - 1) * l < int n"
    by (simp only: of_int_less_iff)
  from a b show ?thesis ..
qed

text \<open>
  C7. For a page and a limit that are at least 1, each either absent from the query
  (then 1 and 10) or read from it, the listing answers 200 with the entries of the
  catalog from offset (page - 1) * limit on, at most limit of them and in storage
  order, the number of all entries, and as total page count the ceiling of total /
  limit: the least number of pages of that size that hold all entries.
\<close>

theorem listing_is_the_page_slice:
  assumes "requested (query ''page'') 1 p" and "requested (query ''limit'') 10 l"
    and "1 \<le> p" and "1 \<le> l"
  shows "getAllProducts query db =
           (200, Page (length db) \<lceil>(of_nat (length db) :: rat) / of_int l\<rceil> p
                   (take (nat l) (drop (nat ((p - 1) * l)) db)))
         \<and> length (take (nat l) (drop (nat ((p - 1) * l)) db)) \<le> nat l
         \<and> (\<forall>i < length (take (nat l) (drop (nat ((p - 1) * l)) db)).
               take (nat l) (drop (nat ((p - 1) * l)) db) ! i = db ! (nat ((p - 1) * l) + i))
         \<and> int (length db) \<le> \<lceil>(of_nat (length db) :: rat) / of_int l\<rceil> * l
         \<and> (\<lceil>(of_nat (length db) :: rat) / of_int l\<rceil> - 1) * l < int (length db)"
proof -
  from assms have pg: "orDefault (parseInt (ToString (query ''page''))) 1 = p"
    and lm: "orDefault (parseInt (ToString (query ''limit''))) 10 = l"
    by (simp_all add: requested_orDefault)
  from assms have sk: "\<not> (p - 1) * l < 0" and l0: "l \<noteq> 0" and la: "\<bar>l\<bar> = l"
    by (simp_all add: mult_less_0_iff)
  have "getAllProducts query db =
           (200, Page (length db) \<lceil>(of_nat (length db) :: rat) / of_int l\<rceil> p
                   (take (nat l) (drop (nat ((p - 1) * l)) db)))"
    by (simp add: getAllProducts_def pg lm find_skip_limit_def sk l0 la countDocuments_def
        Let_def)
  moreover have "\<forall>i < length (take (nat l) (drop (nat ((p - 1) * l)) db)).
               take (nat l) (drop (nat ((p - 1) * l)) db) ! i = db ! (nat ((p - 1) * l) + i)"
    by (auto simp: nth_drop)
  ultimately show ?thesis
    using totalPages_bounds [OF assms(4), of "length db"] by simp
qed

theorem listing_is_the_page_slice_witness:
  "requested (map_of [(''page'', ''2''), (''limit'', ''5'')] ''page'') 1 2
   \<and> requested (map_of [(''page'', ''2''), (''limit'', ''5'')] ''limit'') 10 5
   \<and> getAllProducts (map_of [(''page'', ''2''), (''limit'', ''5'')]) listFixture =
       (200, Page 15 3 2 (map listDoc [6..<11]))
   \<and> requested (map_of [] ''page'') 1 1
   \<and> requested (map_of [] ''limit'') 10 10
   \<and> getAllProducts (map_of []) listFixture = (200, Page 15 2 1 (map listDoc [1..<11]))"
proof -
  let ?q = "map_of [(''page'', ''2''), (''limit'', ''5'')] :: string \<rightharpoonup> string"
  let ?e = "map_of [] :: string \<rightharpoonup> string"
  have a: "requested (?q ''page'') 1 2" "requested (?q ''limit'') 10 5"
    by (simp_all add: requested_def js_eval)
  have b: "requested (?e ''page'') 1 1" "requested (?e ''limit'') 10 10"
    by (simp_all add: requested_def)
  have g: "(1 :: int) \<le> 2" "(1 :: int) \<le> 5" "(1 :: int) \<le> 1" "(1 :: int) \<le> 10"
    by simp_all
  have n: "length listFixture = 15"
    by (simp add: listFixture_def)
  have c5: "\<lceil>(15 :: rat) / 5\<rceil> = 3" and c10: "\<lceil>(3 :: rat) / 2\<rceil> = 2"
    by (simp_all add: ceiling_eq_iff)
  have s1: "take 5 (drop 5 listFixture) = map listDoc [6..<11]"
    by (simp add: listFixture_def take_map drop_map)
  have s2: "take 10 listFixture = map listDoc [1..<11]"
    by (simp add: listFixture_def take_map)
  have e1: "(200, Page (length listFixture) \<lceil>(of_nat (length listFixture) :: rat) / of_int 5\<rceil> 2
                 (take (nat 5) (drop (nat ((2 - 1) * 5)) listFixture))) =
            (200 :: nat, Page 15 3 2 (map listDoc [6..<11]))"
    by (simp add: n c5 s1)
  have e2: "(200, Page (length listFixture) \<lceil>(of_nat (length listFixture) :: rat) / of_int 10\<rceil> 1
                 (take (nat 10) (drop (nat ((1 - 1) * 10)) listFixture))) =
            (200 :: nat, Page 15 2 1 (map listDoc [1..<11]))"
    by (simp add: n c10 s2)
  have r1: "getAllProducts ?q listFixture = (200, Page 15 3 2 (map listDoc [6..<11]))"
    using listing_is_the_page_slice [OF a g(1) g(2), of listFixture, THEN conjunct1] e1
    by (rule trans)
  have r2: "getAllProducts ?e listFixture = (200, Page 15 2 1 (map listDoc [1..<11]))"
    using listing_is_the_page_slice [OF b g(3) g(4), of listFixture, THEN conjunct1] e2
    by (rule trans)
  from a r1 b r2 show ?thesis
    by (intro conjI)
qed

section \<open>The search\<close>

lemma parsePattern_literal:
  "list_all (\<lambda>c. c \<notin> set metaChars \<and> c \<noteq> CHR ''.'') p \<Longrightarrow> parsePattern p = Some (map Lit p)"
  by (induction p) simp_all

lemma matchHere_literal:
  "matchHere (map Lit p) s \<longleftrightarrow> prefix (map toLower p) (map toLower s)"
proof (induction p arbitrary: s)
  case Nil
  show ?case by simp
next
  case (Cons c p)
  show ?case
  proof (cases s)
    case Nil
    then show ?thesis by simp
  next
    case (Cons d t)
    with Cons.IH [of t] show ?thesis by simp
  qed
qed

lemma searchRx_literal:
  "searchRx (map Lit p) s \<longleftrightarrow> sublist (map toLower p) (map toLower s)"
proof (induction s)
  case Nil
  show ?case by (cases p) simp_all
next
  case (Cons d t)
  have "searchRx (map Lit p) (d # t) \<longleftrightarrow>
      matchHere (map Lit p) (d # t) \<or> searchRx (map Lit p) t"
    by simp
  also have "\<dots> \<longleftrightarrow> prefix (map toLower p) (map toLower (d # t))
      \<or> sublist (map toLower p) (map toLower t)"
    by (simp only: matchHere_literal Cons.IH)
  also have "\<dots> \<longleftrightarrow> sublist (map toLower p) (map toLower (d # t))"
    by (simp add: sublist_Cons_right)
  finally show ?case .
qed

lemma regexHolds_literal:
  assumes "literalPattern pat"
  shows "regexHolds (if truthy pat then pat else None) v = substringHolds pat v"
proof (cases "truthy pat")
  case False
  then show ?thesis by (simp add: regexHolds_def substringHolds_def)
next
  case True
  then obtain p where p: "pat = Some p"
    by (cases pat) (simp_all add: truthy_def)
  with assms have "parsePattern p = Some (map Lit p)"
    by (simp add: literalPattern_def parsePattern_literal)
  with True p show ?thesis
    by (simp add: regexHolds_def substringHolds_def ciContains_def searchRx_literal
        split: option.splits jsval.splits)
qed

lemma patternModelled_literal:
  "literalPattern pat \<Longrightarrow> patternModelled (if truthy pat then pat else None)"
  by (cases pat) (simp_all add: literalPattern_def patternModelled_def parsePattern_literal)

lemma boundHolds_gte:
  "boundHolds cmp
     (if truthy lo \<or> truthy hi then (if truthy lo then Some (parseFloat (ToString lo)) else None)
      else None) v = priceHolds cmp lo v"
  by (cases lo)
    (simp_all add: boundHolds_def priceHolds_def truthy_def ToString_def
      split: option.splits jsval.splits)

lemma boundHolds_lte:
  "boundHolds cmp
     (if truthy lo \<or> truthy hi then (if truthy hi then Some (parseFloat (ToString hi)) else None)
      else None) v = priceHolds cmp hi v"
  by (cases hi)
    (simp_all add: boundHolds_def priceHolds_def truthy_def ToString_def
      split: option.splits jsval.splits)

lemma matchesFilter_plain:
  assumes "plainQuery query"
  shows "matchesFilter (buildFilter query) d = spec_matches query d"
  using assms
  by (simp add: matchesFilter_def buildFilter_def spec_matches_def plainQuery_def Let_def
      regexHolds_literal boundHolds_gte boundHolds_lte)

lemma find_filter_plain:
  assumes "plainQuery query"
  shows "find_filter (buildFilter query) db = Some (Inr (filter (spec_matches query) db))"
proof -
  from assms have m: "patternModelled (name_regex (buildFilter query))"
    "patternModelled (brand_regex (buildFilter query))"
    "patternModelled (color_regex (buildFilter query))"
    by (simp_all add: buildFilter_def plainQuery_def Let_def patternModelled_literal)
  from assms have lo: "price_gte (buildFilter query) \<noteq> Some NaN"
    by (cases "query ''minPrice''")
      (auto simp: buildFilter_def plainQuery_def readableBound_def Let_def ToString_def truthy_def)
  from assms have hi: "price_lte (buildFilter query) \<noteq> Some NaN"
    by (cases "query ''maxPrice''")
      (auto simp: buildFilter_def plainQuery_def readableBound_def Let_def ToString_def truthy_def)
  have "matchesFilter (buildFilter query) = spec_matches query"
    by (rule ext) (rule matchesFilter_plain [OF assms])
  then have "filter (matchesFilter (buildFilter query)) db = filter (spec_matches query) db"
    by simp
  with m lo hi show ?thesis
    by (simp add: find_filter_def)
qed

lemmas doc_eval =
  mkDoc_def docA_def docB_def docC_def docD_def docE_def searchFixture_def

lemmas search_eval =
  spec_matches_def substringHolds_def priceHolds_def ciContains_def toLower_def
  sublist_code js_le_def js_ge_def

lemmas query_eval =
  emptyQuery_def minPriceQuery_def brandQuery_def noBrandQuery_def maxZeroQuery_def
  dotQuery_def

text \<open>
  C8 as the specification states it fails: the text parameters are regular expressions,
  not substrings. The brand parameter \<open>.\<close> is no substring of the brand \<open>DenimWorks\<close>,
  yet the search returns that entry.
\<close>

theorem search_regex_counterexample:
  "dotQuery ''brand'' = Some ''.''
   \<and> filterProducts dotQuery [docB] = Some (200, Products [docB])
   \<and> docB ''brand'' = Some (Str ''DenimWorks'')
   \<and> \<not> ciContains ''.'' ''DenimWorks''
   \<and> \<not> spec_matches dotQuery docB"
proof -
  have q: "dotQuery ''brand'' = Some ''.''"
    by (simp add: dotQuery_def)
  have b: "docB ''brand'' = Some (Str ''DenimWorks'')"
    by (simp add: doc_eval)
  have c: "\<not> ciContains ''.'' ''DenimWorks''"
    by (simp add: ciContains_def toLower_def sublist_code)
  have f: "buildFilter dotQuery =
      \<lparr>name_regex = None, brand_regex = Some ''.'', color_regex = None,
       price_gte = None, price_lte = None\<rparr>"
    by (simp add: buildFilter_def truthy_def dotQuery_def)
  have m: "matchesFilter \<lparr>name_regex = None, brand_regex = Some ''.'', color_regex = None,
       price_gte = None, price_lte = None\<rparr> docB"
    by (simp add: matchesFilter_def regexHolds_def boundHolds_def b metaChars_def)
  have r: "filterProducts dotQuery [docB] = Some (200, Products [docB])"
    by (simp add: filterProducts_def f find_filter_def patternModelled_def metaChars_def m)
  have s: "\<not> spec_matches dotQuery docB"
    using c by (simp add: spec_matches_def substringHolds_def truthy_def b q)
  from q r b c s show ?thesis
    by (intro conjI)
qed

lemma parsePattern_dot:
  "list_all (\<lambda>c. c \<notin> set metaChars) p \<Longrightarrow>
     parsePattern p = Some (map (\<lambda>c. if c = CHR ''.'' then AnyChar else Lit c) p)"
  by (induction p) simp_all

lemma matchHere_dot:
  "matchHere (map (\<lambda>c. if c = CHR ''.'' then AnyChar else Lit c) p) t \<longleftrightarrow>
     list_all2 charMatches p (take (length p) t)"
proof (induction p arbitrary: t)
  case Nil
  show ?case by simp
next
  case (Cons a p)
  show ?case
  proof (cases t)
    case Nil
    then show ?thesis by simp
  next
    case (Cons c cs)
    with Cons.IH [of cs] show ?thesis by (simp add: charMatches_def)
  qed
qed

lemma searchRx_dot:
  "searchRx (map (\<lambda>c. if c = CHR ''.'' then AnyChar else Lit c) p) s \<longleftrightarrow> wildcardContains p s"
proof (induction s)
  case Nil
  show ?case by (simp add: wildcardContains_def matchHere_dot)
next
  case (Cons c cs)
  have "searchRx (map (\<lambda>c. if c = CHR ''.'' then AnyChar else Lit c) p) (c # cs) \<longleftrightarrow>
      list_all2 charMatches p (take (length p) (c # cs)) \<or> wildcardContains p cs"
    by (simp only: searchRx.simps matchHere_dot Cons.IH)
  also have "\<dots> \<longleftrightarrow> wildcardContains p (c # cs)"
    by (auto simp: wildcardContains_def)
  finally show ?case .
qed

lemma wildcardContains_literal:
  assumes "list_all (\<lambda>c. c \<notin> set metaChars \<and> c \<noteq> CHR ''.'') p"
  shows "wildcardContains p s = ciContains p s"
proof -
  from assms have "map (\<lambda>c. if c = CHR ''.'' then AnyChar else Lit c) p = map Lit p"
    by (induction p) simp_all
  then have "searchRx (map Lit p) s \<longleftrightarrow> wildcardContains p s"
    using searchRx_dot [of p s] by (simp only:)
  then show ?thesis
    by (simp only: searchRx_literal ciContains_def)
qed

lemma regexCriterion_literal:
  "literalPattern pat \<Longrightarrow> regexCriterion pat v = substringHolds pat v"
  by (cases pat)
    (auto simp: literalPattern_def regexCriterion_def substringHolds_def truthy_def
      wildcardContains_literal split: option.splits jsval.splits)

lemma regexHolds_dot:
  assumes "dotPattern pat"
  shows "regexHolds (if truthy pat then pat else None) v = regexCriterion pat v"
proof (cases "truthy pat")
  case False
  then show ?thesis by (simp add: regexHolds_def regexCriterion_def)
next
  case True
  then obtain p where p: "pat = Some p"
    by (cases pat) (simp_all add: truthy_def)
  with assms have "parsePattern p = Some (map (\<lambda>c. if c = CHR ''.'' then AnyChar else Lit c) p)"
    by (simp add: dotPattern_def parsePattern_dot)
  with True p show ?thesis
    by (simp add: regexHolds_def regexCriterion_def searchRx_dot
        split: option.splits jsval.splits)
qed

lemma patternModelled_dot:
  "dotPattern pat \<Longrightarrow> patternModelled (if truthy pat then pat else None)"
  by (cases pat) (simp_all add: dotPattern_def patternModelled_def parsePattern_dot)

lemma matchesFilter_dot:
  assumes "dotQueryOnly query"
  shows "matchesFilter (buildFilter query) d = criteria query d"
  using assms
  by (simp add: matchesFilter_def buildFilter_def criteria_def dotQueryOnly_def Let_def
      regexHolds_dot boundHolds_gte boundHolds_lte)

lemma price_gte_NaN:
  "price_gte (buildFilter query) = Some NaN \<longleftrightarrow> unreadableBound (query ''minPrice'')"
  by (cases "query ''minPrice''")
    (auto simp: buildFilter_def unreadableBound_def Let_def ToString_def truthy_def)

lemma price_lte_NaN:
  "price_lte (buildFilter query) = Some NaN \<longleftrightarrow> unreadableBound (query ''maxPrice'')"
  by (cases "query ''maxPrice''")
    (auto simp: buildFilter_def unreadableBound_def Let_def ToString_def truthy_def)

lemma find_filter_dot:
  assumes "dotQueryOnly query"
  shows "find_filter (buildFilter query) db =
           Some (if unreadableBound (query ''minPrice'') \<or> unreadableBound (query ''maxPrice'')
                 then Inl ''Cast to Number failed for path price''
                 else Inr (filter (criteria query) db))"
proof -
  from assms have m: "patternModelled (name_regex (buildFilter query))"
    "patternModelled (brand_regex (buildFilter query))"
    "patternModelled (color_regex (buildFilter query))"
    by (simp_all add: buildFilter_def dotQueryOnly_def Let_def patternModelled_dot)
  have "matchesFilter (buildFilter query) = criteria query"
    by (rule ext) (rule matchesFilter_dot [OF assms])
  then have "filter (matchesFilter (buildFilter query)) db = filter (criteria query) db"
    by simp
  with m show ?thesis
    by (simp add: find_filter_def price_gte_NaN price_lte_NaN)
qed

lemma criteria_literal:
  assumes "literalPattern (query ''name'')" and "literalPattern (query ''brand'')"
    and "literalPattern (query ''color'')"
  shows "criteria query d = spec_matches query d"
  using assms by (simp add: criteria_def spec_matches_def regexCriterion_literal)

text \<open>
  C8, amended. For every combination of provided parameters (a parameter is provided
  when it is present and not empty) whose brand, name and color hold no character that
  is special in a regular expression other than the dot, the search answers as follows.
  When a provided minPrice or maxPrice cannot be read as a number, the answer is 500.
  Otherwise it returns, without pagination and in storage order, exactly the entries
  that satisfy every provided criterion: brand, name and color as case-insensitive
  regular-expression matches anywhere in the field, the dot standing for any character,
  and minPrice and maxPrice as inclusive bounds on price, a bound of 0 included; when
  no entry satisfies them the answer is the 404. For parameters without a dot the text
  criteria are the case-insensitive substring matches of the specification.
\<close>

theorem search_returns_the_matches:
  assumes "dotQueryOnly query"
  shows "(unreadableBound (query ''minPrice'') \<or> unreadableBound (query ''maxPrice'') \<longrightarrow>
            (\<exists>msg. filterProducts query db =
                      Some (500, Failure ''Error fetching products.'' msg)))
         \<and> (\<not> (unreadableBound (query ''minPrice'') \<or> unreadableBound (query ''maxPrice'')) \<longrightarrow>
              filterProducts query db =
                Some (if filter (criteria query) db = [] then
                        (404, Message ''No products found matching required criteria.'')
                      else (200, Products (filter (criteria query) db))))
         \<and> (literalPattern (query ''name'') \<and> literalPattern (query ''brand'')
              \<and> literalPattern (query ''color'') \<longrightarrow>
              (\<forall>d. criteria query d = spec_matches query d))"
  by (auto simp: filterProducts_def find_filter_dot [OF assms] criteria_literal)

lemma filter_cong_all: "(\<forall>d. P d = Q d) \<Longrightarrow> filter P db = filter Q db"
  by (induction db) simp_all

theorem search_returns_the_matches_witness:
  "dotQueryOnly minPriceQuery
   \<and> filterProducts minPriceQuery searchFixture = Some (200, Products [docD, docE])
   \<and> dotQueryOnly brandQuery
   \<and> filterProducts brandQuery searchFixture = Some (200, Products [docA, docC])
   \<and> dotQueryOnly combinedQuery
   \<and> filterProducts combinedQuery searchFixture = Some (200, Products [docE])
   \<and> dotQueryOnly maxZeroQuery
   \<and> filterProducts maxZeroQuery searchFixture =
       Some (404, Message ''No products found matching required criteria.'')
   \<and> dotQueryOnly dotQuery
   \<and> filterProducts dotQuery searchFixture = Some (200, Products searchFixture)
   \<and> dotQueryOnly wildQuery
   \<and> filterProducts wildQuery searchFixture = Some (200, Products [docA])
   \<and> dotQueryOnly badBoundQuery
   \<and> unreadableBound (badBoundQuery ''minPrice'')
   \<and> (\<exists>msg. filterProducts badBoundQuery searchFixture =
                Some (500, Failure ''Error fetching products.'' msg))"
proof -
  note more_eval = badBoundQuery_def combinedQuery_def wildQuery_def
  have m: "dotQueryOnly minPriceQuery" "dotQueryOnly maxZeroQuery" "dotQueryOnly badBoundQuery"
    by (simp_all add: dotQueryOnly_def dotPattern_def query_eval more_eval)
  have m2: "dotQueryOnly brandQuery" "dotQueryOnly combinedQuery" "dotQueryOnly dotQuery"
    "dotQueryOnly wildQuery"
    by (simp_all add: dotQueryOnly_def dotPattern_def metaChars_def query_eval more_eval)
  have l: "literalPattern (minPriceQuery ''name'')" "literalPattern (minPriceQuery ''brand'')"
    "literalPattern (minPriceQuery ''color'')"
    "literalPattern (maxZeroQuery ''name'')" "literalPattern (maxZeroQuery ''brand'')"
    "literalPattern (maxZeroQuery ''color'')"
    by (simp_all add: literalPattern_def query_eval)
  have l2: "literalPattern (brandQuery ''name'')" "literalPattern (brandQuery ''brand'')"
    "literalPattern (brandQuery ''color'')"
    "literalPattern (combinedQuery ''name'')" "literalPattern (combinedQuery ''brand'')"
    "literalPattern (combinedQuery ''color'')"
    by (simp_all add: literalPattern_def metaChars_def query_eval more_eval)
  have v: "parseFloat ''2000'' = Fin 2000" "parseFloat ''0'' = Fin 0" "parseFloat ''600'' = Fin 600"
    "parseFloat ''abc'' = NaN"
    by (simp_all add: js_eval)
  have r: "\<not> (unreadableBound (minPriceQuery ''minPrice'') \<or> unreadableBound (minPriceQuery ''maxPrice''))"
    "\<not> (unreadableBound (brandQuery ''minPrice'') \<or> unreadableBound (brandQuery ''maxPrice''))"
    "\<not> (unreadableBound (combinedQuery ''minPrice'') \<or> unreadableBound (combinedQuery ''maxPrice''))"
    "\<not> (unreadableBound (maxZeroQuery ''minPrice'') \<or> unreadableBound (maxZeroQuery ''maxPrice''))"
    "\<not> (unreadableBound (dotQuery ''minPrice'') \<or> unreadableBound (dotQuery ''maxPrice''))"
    "\<not> (unreadableBound (wildQuery ''minPrice'') \<or> unreadableBound (wildQuery ''maxPrice''))"
    by (simp_all add: unreadableBound_def truthy_def v query_eval more_eval)
  have b: "unreadableBound (badBoundQuery ''minPrice'')"
    by (simp add: unreadableBound_def truthy_def v more_eval)
  have s1: "filter (spec_matches minPriceQuery) searchFixture = [docD, docE]"
    by (simp add: doc_eval spec_matches_def substringHolds_def priceHolds_def truthy_def v
        js_ge_def js_le_def query_eval)
  have s2: "filter (spec_matches brandQuery) searchFixture = [docA, docC]"
    by (simp add: doc_eval spec_matches_def substringHolds_def priceHolds_def truthy_def
        ciContains_def toLower_def sublist_code query_eval)
  have s3: "filter (spec_matches combinedQuery) searchFixture = [docE]"
    by (simp add: doc_eval spec_matches_def substringHolds_def priceHolds_def truthy_def v
        js_ge_def js_le_def ciContains_def toLower_def sublist_code more_eval)
  have s4: "filter (spec_matches maxZeroQuery) searchFixture = []"
    by (simp add: doc_eval spec_matches_def substringHolds_def priceHolds_def truthy_def v
        js_ge_def js_le_def query_eval)
  note t1 = search_returns_the_matches [OF m(1), of searchFixture]
  note t2 = search_returns_the_matches [OF m2(1), of searchFixture]
  note t3 = search_returns_the_matches [OF m2(2), of searchFixture]
  note t4 = search_returns_the_matches [OF m(2), of searchFixture]
  note t5 = search_returns_the_matches [OF m2(3), of searchFixture]
  note t6 = search_returns_the_matches [OF m2(4), of searchFixture]
  note t7 = search_returns_the_matches [OF m(3), of searchFixture]
  have c1: "filter (criteria minPriceQuery) searchFixture = [docD, docE]"
    using filter_cong_all [OF t1 [THEN conjunct2, THEN conjunct2, THEN mp, OF conjI [OF l(1) conjI [OF l(2) l(3)]]],
        of searchFixture] s1
    by (rule trans)
  have c2: "filter (criteria brandQuery) searchFixture = [docA, docC]"
    using filter_cong_all [OF t2 [THEN conjunct2, THEN conjunct2, THEN mp, OF conjI [OF l2(1) conjI [OF l2(2) l2(3)]]],
        of searchFixture] s2
    by (rule trans)
  have c3: "filter (criteria combinedQuery) searchFixture = [docE]"
    using filter_cong_all [OF t3 [THEN conjunct2, THEN conjunct2, THEN mp, OF conjI [OF l2(4) conjI [OF l2(5) l2(6)]]],
        of searchFixture] s3
    by (rule trans)
  have c4: "filter (criteria maxZeroQuery) searchFixture = []"
    using filter_cong_all [OF t4 [THEN conjunct2, THEN conjunct2, THEN mp, OF conjI [OF l(4) conjI [OF l(5) l(6)]]],
        of searchFixture] s4
    by (rule trans)
  have c5: "filter (criteria dotQuery) searchFixture = searchFixture"
    by (simp add: doc_eval criteria_def regexCriterion_def priceHolds_def truthy_def
        wildcardContains_def charMatches_def query_eval)
  have c6: "filter (criteria wildQuery) searchFixture = [docA]"
    by (simp add: doc_eval criteria_def regexCriterion_def priceHolds_def truthy_def v
        js_ge_def js_le_def wildcardContains_def charMatches_def toLower_def more_eval)
  have n5: "searchFixture \<noteq> []"
    by (simp add: searchFixture_def)
  have r1: "filterProducts minPriceQuery searchFixture = Some (200, Products [docD, docE])"
    using t1 [THEN conjunct2, THEN conjunct1, rule_format, OF r(1)] by (simp add: c1)
  have r2: "filterProducts brandQuery searchFixture = Some (200, Products [docA, docC])"
    using t2 [THEN conjunct2, THEN conjunct1, rule_format, OF r(2)] by (simp add: c2)
  have r3: "filterProducts combinedQuery searchFixture = Some (200, Products [docE])"
    using t3 [THEN conjunct2, THEN conjunct1, rule_format, OF r(3)] by (simp add: c3)
  have r4: "filterProducts maxZeroQuery searchFixture =
      Some (404, Message ''No products found matching required criteria.'')"
    using t4 [THEN conjunct2, THEN conjunct1, rule_format, OF r(4)] by (simp add: c4)
  have r5: "filterProducts dotQuery searchFixture = Some (200, Products searchFixture)"
    using t5 [THEN conjunct2, THEN conjunct1, rule_format, OF r(5)] n5 by (simp add: c5)
  have r6: "filterProducts wildQuery searchFixture = Some (200, Products [docA])"
    using t6 [THEN conjunct2, THEN conjunct1, rule_format, OF r(6)] by (simp add: c6)
  have r7: "\<exists>msg. filterProducts badBoundQuery searchFixture =
                Some (500, Failure ''Error fetching products.'' msg)"
    using t7 [THEN conjunct1, rule_format, OF disjI1 [OF b]] .
  from m(1) r1 m2(1) r2 m2(2) r3 m(2) r4 m2(3) r5 m2(4) r6 m(3) b r7 show ?thesis
    by (intro conjI)
qed

text \<open>
  C9. A search whose filter matches no entry answers 404 with the message, the listing
  of an empty catalog (page and limit absent or at least 1) answers 200 with
  \<open>totalProducts\<close> 0 and an empty \<open>products\<close> array; the two responses are never the
  same.
\<close>

theorem empty_search_and_empty_listing_differ:
  assumes "find_filter (buildFilter query) db = Some (Inr [])"
    and "requested (q ''page'') 1 p" and "requested (q ''limit'') 10 l"
    and "1 \<le> p" and "1 \<le> l"
  shows "filterProducts query db =
           Some (404, Message ''No products found matching required criteria.'')
         \<and> getAllProducts q [] = (200, Page 0 0 p [])
         \<and> filterProducts query db \<noteq> Some (getAllProducts q [])"
proof -
  have a: "filterProducts query db =
      Some (404, Message ''No products found matching required criteria.'')"
    by (simp add: filterProducts_def assms(1))
  from assms have pg: "orDefault (parseInt (ToString (q ''page''))) 1 = p"
    and lm: "orDefault (parseInt (ToString (q ''limit''))) 10 = l"
    by (simp_all add: requested_orDefault)
  from assms have sk: "\<not> (p - 1) * l < 0" and l0: "l \<noteq> 0"
    by (simp_all add: mult_less_0_iff)
  have b: "getAllProducts q [] = (200, Page 0 0 p [])"
    by (simp add: getAllProducts_def pg lm find_skip_limit_def sk l0 countDocuments_def Let_def)
  from a b show ?thesis by simp
qed

theorem empty_search_and_empty_listing_differ_witness:
  "find_filter (buildFilter noBrandQuery) searchFixture = Some (Inr [])
   \<and> filterProducts noBrandQuery searchFixture =
       Some (404, Message ''No products found matching required criteria.'')
   \<and> find_filter (buildFilter emptyQuery) [] = Some (Inr [])
   \<and> filterProducts emptyQuery [] =
       Some (404, Message ''No products found matching required criteria.'')
   \<and> getAllProducts emptyQuery [] = (200, Page 0 0 1 [])"
proof -
  have p: "plainQuery noBrandQuery"
    by (simp add: plainQuery_def literalPattern_def readableBound_def truthy_def metaChars_def
        query_eval)
  have pe: "plainQuery emptyQuery"
    by (simp add: plainQuery_def literalPattern_def readableBound_def truthy_def query_eval)
  have f: "filter (spec_matches noBrandQuery) searchFixture = []"
    by (simp add: doc_eval spec_matches_def substringHolds_def priceHolds_def truthy_def
        ciContains_def toLower_def sublist_code query_eval)
  have a: "find_filter (buildFilter noBrandQuery) searchFixture = Some (Inr [])"
    by (simp add: find_filter_plain [OF p] f)
  have b: "find_filter (buildFilter emptyQuery) [] = Some (Inr [])"
    by (simp add: find_filter_plain [OF pe])
  have r: "requested (emptyQuery ''page'') 1 1" "requested (emptyQuery ''limit'') 10 10"
    by (simp_all add: requested_def query_eval)
  have g: "(1 :: int) \<le> 1" "(1 :: int) \<le> 10"
    by simp_all
  note t1 = empty_search_and_empty_listing_differ [OF a r g]
  note t2 = empty_search_and_empty_listing_differ [OF b r g]
  from a t1 [THEN conjunct1] b t2 [THEN conjunct1] t2 [THEN conjunct2, THEN conjunct1]
  show ?thesis
    by (intro conjI)
qed

section \<open>The store\<close>

lemma runOperations_Nil: "runOperations [] db = db"
  by (simp add: runOperations_def)

lemma runOperations_Cons:
  "runOperations ((ins, k, u) # ops) db = runOperations ops (updateDoc ins k u db)"
  by (simp add: runOperations_def)

lemma map_add_self: "(m :: 'a \<rightharpoonup> 'b) ++ m = m"
  by (rule ext) (simp add: map_add_def split: option.splits)

lemma skuOf_map_add: "skuOf u = Some (Str k) \<Longrightarrow> skuOf (d ++ u) = Some (Str k)"
  by (simp add: skuOf_def)

lemma insert_doc_eq: "skuOf u = Some (Str k) \<Longrightarrow> [''sku'' \<mapsto> Str k] ++ u = u"
  by (rule ext) (simp add: skuOf_def map_add_def split: option.splits)

lemma updateDoc_Cons:
  "updateDoc ins k u (d # ds) =
     (if skuOf d = Some (Str k) then (d ++ u) # ds else d # updateDoc ins k u ds)"
  by (simp add: skuOf_def)

declare updateDoc.simps(2) [simp del]

lemma not_in_skus:
  "Some (Str k) \<notin> set (map skuOf db) \<Longrightarrow> d \<in> set db \<Longrightarrow> skuOf d \<noteq> Some (Str k)"
  by (metis image_eqI set_map)

lemma updateDoc_absent:
  "Some (Str k) \<notin> set (map skuOf db) \<Longrightarrow> skuOf u = Some (Str k) \<Longrightarrow>
     updateDoc True k u db = db @ [u]"
proof (induction db)
  case Nil
  then show ?case by (simp add: insert_doc_eq)
next
  case (Cons d ds)
  have "skuOf d \<noteq> Some (Str k)"
    using Cons.prems(1) by (rule not_in_skus) simp
  moreover have "Some (Str k) \<notin> set (map skuOf ds)"
    using Cons.prems(1) by simp
  ultimately have "skuOf d \<noteq> Some (Str k)" "Some (Str k) \<notin> set (map skuOf ds)"
    by blast+
  with Cons show ?case by (simp add: updateDoc_Cons)
qed

lemma updateDoc_present:
  "unique_sku db \<Longrightarrow> Some (Str k) \<in> set (map skuOf db) \<Longrightarrow>
     updateDoc ins k u db = map (\<lambda>d. if skuOf d = Some (Str k) then d ++ u else d) db"
proof (induction db)
  case Nil
  then show ?case by simp
next
  case (Cons d ds)
  show ?case
  proof (cases "skuOf d = Some (Str k)")
    case True
    with Cons.prems(1) have "Some (Str k) \<notin> set (map skuOf ds)"
      by (simp add: unique_sku_def)
    then have "\<forall>e \<in> set ds. skuOf e \<noteq> Some (Str k)"
      by (simp add: not_in_skus)
    then have "map (\<lambda>d. if skuOf d = Some (Str k) then d ++ u else d) ds = ds"
      by (simp add: map_idI)
    with True show ?thesis by (simp add: updateDoc_Cons)
  next
    case False
    with Cons.prems have "unique_sku ds" "Some (Str k) \<in> set (map skuOf ds)"
      by (auto simp: unique_sku_def)
    from Cons.IH [OF this] False show ?thesis by (simp add: updateDoc_Cons)
  qed
qed

lemma updateDoc_skus:
  assumes "skuOf u = Some (Str k)"
  shows "map skuOf (updateDoc True k u db) =
           (if Some (Str k) \<in> set (map skuOf db) then map skuOf db
            else map skuOf db @ [Some (Str k)])"
proof (cases "Some (Str k) \<in> set (map skuOf db)")
  case False
  with assms show ?thesis by (simp add: updateDoc_absent)
next
  case True
  then have "map skuOf (updateDoc True k u db) = map skuOf db"
  proof (induction db)
    case Nil
    then show ?case by simp
  next
    case (Cons d ds)
    show ?case
    proof (cases "skuOf d = Some (Str k)")
      case True
      with assms show ?thesis by (simp add: updateDoc_Cons skuOf_map_add)
    next
      case False
      with Cons show ?thesis by (simp add: updateDoc_Cons)
    qed
  qed
  with True show ?thesis by simp
qed

lemma updateDoc_unique:
  "unique_sku db \<Longrightarrow> skuOf u = Some (Str k) \<Longrightarrow> unique_sku (updateDoc True k u db)"
  by (simp add: unique_sku_def updateDoc_skus)

lemma updateDoc_keeps_others:
  "d \<in> set db \<Longrightarrow> skuOf d \<noteq> Some (Str k) \<Longrightarrow> d \<in> set (updateDoc ins k u db)"
  by (induction db) (auto simp: updateDoc_Cons)

lemma updateDoc_has_key:
  assumes "skuOf u = Some (Str k)"
  shows "\<exists>d \<in> set (updateDoc True k u db). skuOf d = Some (Str k) \<and> u \<subseteq>\<^sub>m d"
proof (induction db)
  case Nil
  from assms show ?case by (simp add: insert_doc_eq)
next
  case (Cons d ds)
  show ?case
  proof (cases "skuOf d = Some (Str k)")
    case True
    have "u \<subseteq>\<^sub>m d ++ u"
      by (auto simp: map_le_def map_add_def split: option.splits)
    with True assms show ?thesis
      by (simp add: updateDoc_Cons skuOf_map_add)
  next
    case False
    with Cons show ?thesis by (simp add: updateDoc_Cons)
  qed
qed

lemma upsertsOnKey_Cons:
  "upsertsOnKey ((ins, k, u) # ops) \<longleftrightarrow> ins \<and> skuOf u = Some (Str k) \<and> upsertsOnKey ops"
  by (simp add: upsertsOnKey_def)

lemma opKey_simp: "opKey (ins, k, u) = Some (Str k)"
  by (simp add: opKey_def)

lemma runOperations_unique:
  "upsertsOnKey ops \<Longrightarrow> unique_sku db \<Longrightarrow> unique_sku (runOperations ops db)"
proof (induction ops arbitrary: db)
  case Nil
  then show ?case by (simp add: runOperations_Nil)
next
  case (Cons op ops)
  obtain ins k u where op: "op = (ins, k, u)" by (cases op)
  with Cons.prems have "unique_sku (updateDoc ins k u db)" "upsertsOnKey ops"
    by (simp_all add: upsertsOnKey_Cons updateDoc_unique)
  with Cons.IH op show ?case by (simp add: runOperations_Cons)
qed

lemma runOperations_skus_grow:
  "upsertsOnKey ops \<Longrightarrow>
     set (map skuOf (runOperations ops db)) = set (map skuOf db) \<union> set (map opKey ops)"
proof (induction ops arbitrary: db)
  case Nil
  then show ?case by (simp add: runOperations_Nil)
next
  case (Cons op ops)
  obtain ins k u where op: "op = (ins, k, u)" by (cases op)
  with Cons.prems have w: "ins" "skuOf u = Some (Str k)" "upsertsOnKey ops"
    by (simp_all add: upsertsOnKey_Cons)
  have "set (map skuOf (updateDoc True k u db)) = insert (Some (Str k)) (set (map skuOf db))"
    using updateDoc_skus [of u k db] w(2) by (auto split: if_splits)
  with Cons.IH [OF w(3), of "updateDoc True k u db"] op w(1) show ?case
    by (simp add: runOperations_Cons opKey_simp)
qed

lemma mergedSet_Cons:
  "mergedSet ((ins, k, u) # ops) s =
     (if s = Some (Str k) then u ++ mergedSet ops s else mergedSet ops s)"
  by simp

lemma mergedSet_sku:
  "upsertsOnKey ops \<Longrightarrow> skuOf (d ++ mergedSet ops (skuOf d)) = skuOf d"
proof (induction ops)
  case Nil
  show ?case by simp
next
  case (Cons op ops)
  obtain ins k u where op: "op = (ins, k, u)" by (cases op)
  with Cons.prems have w: "skuOf u = Some (Str k)" "upsertsOnKey ops"
    by (simp_all add: upsertsOnKey_Cons)
  from Cons.IH [OF w(2)] w(1) op show ?case
    by (auto simp: skuOf_def map_add_def split: option.splits)
qed

text \<open>
  When every key of the batch is in the catalog, the batch adds to each document the
  merged fields of the operations on its sku.
\<close>

lemma runOperations_present:
  "upsertsOnKey ops \<Longrightarrow> unique_sku db \<Longrightarrow> set (map opKey ops) \<subseteq> set (map skuOf db) \<Longrightarrow>
     runOperations ops db = map (\<lambda>d. d ++ mergedSet ops (skuOf d)) db"
proof (induction ops arbitrary: db)
  case Nil
  show ?case by (simp add: runOperations_Nil)
next
  case (Cons op ops)
  obtain ins k u where op: "op = (ins, k, u)" by (cases op)
  with Cons.prems have w: "ins" "skuOf u = Some (Str k)" "upsertsOnKey ops"
    by (simp_all add: upsertsOnKey_Cons)
  from Cons.prems(3) op have k: "Some (Str k) \<in> set (map skuOf db)"
    and rest: "set (map opKey ops) \<subseteq> set (map skuOf db)"
    by (simp_all add: opKey_simp)
  let ?db1 = "updateDoc ins k u db"
  have db1: "?db1 = map (\<lambda>d. if skuOf d = Some (Str k) then d ++ u else d) db"
    by (rule updateDoc_present [OF Cons.prems(2) k])
  have u1: "unique_sku ?db1"
    using w Cons.prems(2) by (simp add: updateDoc_unique)
  have s1: "map skuOf ?db1 = map skuOf db"
    using w k by (simp add: updateDoc_skus)
  have "runOperations ops ?db1 = map (\<lambda>d. d ++ mergedSet ops (skuOf d)) ?db1"
    using Cons.IH [OF w(3) u1] rest s1 by simp
  also have "\<dots> = map (\<lambda>d. d ++ mergedSet (op # ops) (skuOf d)) db"
    using w(2) by (simp add: db1 op skuOf_map_add comp_def)
  finally show ?case by (simp add: op runOperations_Cons)
qed

text \<open>
  After a batch, every document already holds the merged fields of the operations on
  its sku: setting them once more changes nothing. The statement is generalised over
  fields \<open>M\<close> the documents hold at the start.
\<close>

lemma runOperations_absorbs:
  "upsertsOnKey ops \<Longrightarrow> unique_sku db \<Longrightarrow>
   (\<forall>d \<in> set db. d ++ M (skuOf d) = d) \<Longrightarrow>
   (\<forall>s. s \<notin> set (map skuOf db) \<longrightarrow> M s = Map.empty) \<Longrightarrow>
     \<forall>d \<in> set (runOperations ops db). d ++ (M (skuOf d) ++ mergedSet ops (skuOf d)) = d"
proof (induction ops arbitrary: db M)
  case Nil
  then show ?case by (simp add: runOperations_Nil)
next
  case (Cons op ops)
  obtain ins k u where op: "op = (ins, k, u)" by (cases op)
  with Cons.prems have w: "ins" "skuOf u = Some (Str k)" "upsertsOnKey ops"
    by (simp_all add: upsertsOnKey_Cons)
  let ?db1 = "updateDoc True k u db"
  define M1 where "M1 = M(Some (Str k) := M (Some (Str k)) ++ u)"
  have M1k: "M1 (Some (Str k)) = M (Some (Str k)) ++ u"
    and M1o: "\<And>s. s \<noteq> Some (Str k) \<Longrightarrow> M1 s = M s"
    by (simp_all add: M1_def)
  have u1: "unique_sku ?db1"
    using w Cons.prems(2) by (simp add: updateDoc_unique)
  have a1: "\<forall>d \<in> set ?db1. d ++ M1 (skuOf d) = d"
  proof (cases "Some (Str k) \<in> set (map skuOf db)")
    case True
    have db1: "?db1 = map (\<lambda>d. if skuOf d = Some (Str k) then d ++ u else d) db"
      by (rule updateDoc_present [OF Cons.prems(2) True])
    show ?thesis
    proof
      fix e assume "e \<in> set ?db1"
      then obtain d where d: "d \<in> set db"
        and e: "e = (if skuOf d = Some (Str k) then d ++ u else d)"
        by (auto simp: db1)
      from Cons.prems(3) d have ab: "d ++ M (skuOf d) = d" by blast
      show "e ++ M1 (skuOf e) = e"
      proof (cases "skuOf d = Some (Str k)")
        case True
        with ab have "\<And>x. (d ++ M (Some (Str k))) x = d x"
          by simp
        then have "\<And>x. ((d ++ u) ++ (M (Some (Str k)) ++ u)) x = (d ++ u) x"
          by (simp add: map_add_def split: option.splits)
        then have "(d ++ u) ++ (M (Some (Str k)) ++ u) = d ++ u"
          by (rule ext)
        with True e w(2) show ?thesis
          by (simp add: skuOf_map_add M1k)
      next
        case False
        with e ab show ?thesis by (simp add: M1o)
      qed
    qed
  next
    case False
    then have db1: "?db1 = db @ [u]"
      using w(2) by (rule updateDoc_absent)
    from False Cons.prems(4) have "M (Some (Str k)) = Map.empty"
      by blast
    then have "u ++ M1 (skuOf u) = u"
      using w(2) by (simp add: M1k map_add_self)
    moreover have "\<forall>d \<in> set db. d ++ M1 (skuOf d) = d"
    proof
      fix d assume d: "d \<in> set db"
      with False have "skuOf d \<noteq> Some (Str k)" by (simp add: not_in_skus)
      with Cons.prems(3) d show "d ++ M1 (skuOf d) = d" by (simp add: M1o)
    qed
    ultimately show ?thesis
      by (simp add: db1)
  qed
  have b1: "\<forall>s. s \<notin> set (map skuOf ?db1) \<longrightarrow> M1 s = Map.empty"
  proof (intro allI impI)
    fix s assume s: "s \<notin> set (map skuOf ?db1)"
    have "set (map skuOf ?db1) = insert (Some (Str k)) (set (map skuOf db))"
      using updateDoc_skus [of u k db] w(2) by (auto split: if_splits)
    with s have "s \<noteq> Some (Str k)" "s \<notin> set (map skuOf db)"
      by auto
    with Cons.prems(4) show "M1 s = Map.empty"
      by (simp add: M1o)
  qed
  have m: "\<And>s. M1 s ++ mergedSet ops s = M s ++ mergedSet (op # ops) s"
    by (simp add: op M1_def)
  have "\<forall>d \<in> set (runOperations ops ?db1). d ++ (M1 (skuOf d) ++ mergedSet ops (skuOf d)) = d"
    by (rule Cons.IH [OF w(3) u1 a1 b1])
  then have "\<forall>d \<in> set (runOperations ops ?db1).
      d ++ (M (skuOf d) ++ mergedSet (op # ops) (skuOf d)) = d"
    by (simp only: m)
  with w(1) show ?case
    by (simp only: op runOperations_Cons)
qed

lemma runOperations_idempotent:
  assumes "upsertsOnKey ops" and "unique_sku db"
  shows "runOperations ops (runOperations ops db) = runOperations ops db"
proof -
  let ?db' = "runOperations ops db"
  have u: "unique_sku ?db'"
    using assms by (rule runOperations_unique)
  have k: "set (map opKey ops) \<subseteq> set (map skuOf ?db')"
    using runOperations_skus_grow [OF assms(1), of db] by blast
  have "\<forall>d \<in> set ?db'. d ++ (Map.empty ++ mergedSet ops (skuOf d)) = d"
    using runOperations_absorbs [OF assms, of "\<lambda>s. Map.empty"] by simp
  then have ab: "\<forall>d \<in> set ?db'. d ++ mergedSet ops (skuOf d) = d"
    by simp
  have "runOperations ops ?db' = map (\<lambda>d. d ++ mergedSet ops (skuOf d)) ?db'"
    by (rule runOperations_present [OF assms(1) u k])
  also have "\<dots> = ?db'"
    using ab by (simp add: map_idI)
  finally show ?thesis .
qed

lemma runOperations_keeps:
  "d \<in> set db \<Longrightarrow> \<forall>op \<in> set ops. opKey op \<noteq> skuOf d \<Longrightarrow> d \<in> set (runOperations ops db)"
proof (induction ops arbitrary: db)
  case Nil
  then show ?case by (simp add: runOperations_Nil)
next
  case (Cons op ops)
  obtain ins k u where op: "op = (ins, k, u)" by (cases op)
  with Cons.prems(2) have "Some (Str k) \<noteq> skuOf d" "\<forall>op \<in> set ops. opKey op \<noteq> skuOf d"
    by (simp_all add: opKey_simp)
  then have "d \<in> set (updateDoc ins k u db)" "\<forall>op \<in> set ops. opKey op \<noteq> skuOf d"
    using Cons.prems(1) by (simp_all add: updateDoc_keeps_others)
  with Cons.IH op show ?case by (simp add: runOperations_Cons)
qed

text \<open>The last operation of a batch on a key leaves its fields in the document of that key.\<close>

lemma runOperations_last_wins:
  "upsertsOnKey ops \<Longrightarrow> i < length ops \<Longrightarrow>
   \<forall>j. i < j \<and> j < length ops \<longrightarrow> opKey (ops ! j) \<noteq> opKey (ops ! i) \<Longrightarrow>
     \<exists>d \<in> set (runOperations ops db). skuOf d = opKey (ops ! i) \<and> snd (snd (ops ! i)) \<subseteq>\<^sub>m d"
proof (induction ops arbitrary: db i)
  case Nil
  then show ?case by simp
next
  case (Cons op ops)
  obtain ins k u where op: "op = (ins, k, u)" by (cases op)
  with Cons.prems(1) have w: "ins" "skuOf u = Some (Str k)" "upsertsOnKey ops"
    by (simp_all add: upsertsOnKey_Cons)
  show ?case
  proof (cases i)
    case 0
    from updateDoc_has_key [OF w(2), of db] obtain d
      where d: "d \<in> set (updateDoc True k u db)" "skuOf d = Some (Str k)" "u \<subseteq>\<^sub>m d"
      by blast
    have "\<forall>q \<in> set ops. opKey q \<noteq> skuOf d"
    proof
      fix q assume "q \<in> set ops"
      then obtain j where j: "j < length ops" "ops ! j = q"
        by (auto simp: in_set_conv_nth)
      with Cons.prems(3) [rule_format, of "Suc j"] 0 op d(2) show "opKey q \<noteq> skuOf d"
        by (simp add: opKey_simp)
    qed
    with d(1) have "d \<in> set (runOperations ops (updateDoc True k u db))"
      by (rule runOperations_keeps)
    with d 0 op w(1) show ?thesis
      by (auto simp: runOperations_Cons opKey_simp)
  next
    case (Suc j)
    with Cons.prems have "j < length ops"
      "\<forall>l. j < l \<and> l < length ops \<longrightarrow> opKey (ops ! l) \<noteq> opKey (ops ! j)"
      by auto
    from Cons.IH [OF w(3) this, of "updateDoc ins k u db"] Suc op show ?thesis
      by (simp add: runOperations_Cons)
  qed
qed

lemma unique_filter:
  "unique_sku db \<Longrightarrow> d \<in> set db \<Longrightarrow> filter (\<lambda>e. skuOf e = skuOf d) db = [d]"
proof (induction db)
  case Nil
  then show ?case by simp
next
  case (Cons e es)
  from Cons.prems(1) have u: "unique_sku es" and n: "skuOf e \<notin> set (map skuOf es)"
    by (simp_all add: unique_sku_def)
  show ?case
  proof (cases "d = e")
    case True
    from n have "\<forall>x \<in> set es. skuOf x \<noteq> skuOf e"
      by (metis image_eqI set_map)
    then have "filter (\<lambda>x. skuOf x = skuOf e) es = []"
      by (simp add: filter_empty_conv)
    with True show ?thesis by simp
  next
    case False
    with Cons.prems(2) have d: "d \<in> set es" by simp
    with n have "skuOf e \<noteq> skuOf d"
      by (metis image_eqI set_map)
    with Cons.IH [OF u d] show ?thesis by simp
  qed
qed


section \<open>The upload against the store\<close>

lemma castValue_string: "castValue SString (Str s) = Some (Str (trim s))"
  by (simp add: castValue_def)

lemma castValue_number: "n \<noteq> NaN \<Longrightarrow> castValue SNumber (Num n) = Some (Num n)"
  by (simp add: castValue_def)

lemma validatedProduct_fields:
  "validatedProduct r ''sku'' = map_option Str (r ''sku'')"
  "validatedProduct r ''name'' = map_option Str (r ''name'')"
  "validatedProduct r ''brand'' = map_option Str (r ''brand'')"
  "validatedProduct r ''color'' = map_option Str (r ''color'')"
  "validatedProduct r ''size'' = map_option Str (r ''size'')"
  "validatedProduct r ''mrp'' = Some (Num (parsedMrp r))"
  "validatedProduct r ''price'' = Some (Num (parsedPrice r))"
  "validatedProduct r ''quantity'' = Some (Num (Fin (of_int (the (parsedQuantity r)))))"
  by (simp_all add: validatedProduct_def)

lemma castSet_validated:
  assumes "\<not> isl (validateRow r)"
  shows "castSet (validatedProduct r) = Some (castPath (validatedProduct r))"
proof -
  from assms have n: "parsedMrp r \<noteq> NaN" "parsedPrice r \<noteq> NaN"
    by (auto simp: validateRow_def invalidNumber_def isNaN_def split: if_splits)
  show ?thesis
    by (simp add: castSet_def productSchema_def validatedProduct_fields castValue_string
        castValue_number n split: option.splits)
qed

lemma castOperation_validated:
  assumes "\<not> isl (validateRow r)"
  shows "castOperation (mkOperation (validatedProduct r)) =
           Some (True, storedSku (validatedProduct r), castPath (validatedProduct r))"
    and "skuOf (castPath (validatedProduct r)) = Some (Str (storedSku (validatedProduct r)))"
proof -
  from assms obtain s where s: "r ''sku'' = Some s"
    by (auto simp: validateRow_def missingRequired_def truthy_def split: if_splits option.splits)
  have k: "storedSku (validatedProduct r) = trim s"
    by (simp add: storedSku_def validatedProduct_fields s)
  have c: "castPath (validatedProduct r) ''sku'' = Some (Str (trim s))"
    by (simp add: castPath_def productSchema_def validatedProduct_fields s castValue_string)
  show "castOperation (mkOperation (validatedProduct r)) =
           Some (True, storedSku (validatedProduct r), castPath (validatedProduct r))"
    by (simp add: castOperation_def mkOperation_def castSet_validated [OF assms]
        validatedProduct_fields s c k)
  show "skuOf (castPath (validatedProduct r)) = Some (Str (storedSku (validatedProduct r)))"
    by (simp add: skuOf_def c k)
qed

lemma acceptedProducts_validated:
  "p \<in> set (acceptedProducts rows) \<Longrightarrow> \<exists>r. \<not> isl (validateRow r) \<and> p = validatedProduct r"
  by (auto simp: acceptedProducts_def)

lemma storeOps_eq:
  "storeOps rows = map (\<lambda>p. (True, storedSku p, castPath p)) (acceptedProducts rows)"
proof -
  have "\<forall>p \<in> set (acceptedProducts rows).
      the (castOperation (mkOperation p)) = (True, storedSku p, castPath p)"
    using acceptedProducts_validated castOperation_validated(1) by fastforce
  then show ?thesis
    by (simp add: storeOps_def)
qed

lemma storeOps_upserts: "upsertsOnKey (storeOps rows)"
proof -
  have "\<forall>p \<in> set (acceptedProducts rows). skuOf (castPath p) = Some (Str (storedSku p))"
    using acceptedProducts_validated castOperation_validated(2) by blast
  then show ?thesis
    by (simp add: storeOps_eq upsertsOnKey_def list_all_iff)
qed

lemma bulkWrite_accepted:
  "bulkWrite (map mkOperation (acceptedProducts rows)) db =
     (None, runOperations (storeOps rows) db)"
proof -
  have "\<forall>p \<in> set (acceptedProducts rows). castOperation (mkOperation p) \<noteq> None"
    using acceptedProducts_validated castOperation_validated(1) by fastforce
  then show ?thesis
    by (simp add: bulkWrite_def storeOps_def list_all_iff)
qed

lemma upload_end:
  "uploadProducts bulkWrite (Some (rows, End)) db =
     (summaryOf rows, runOperations (storeOps rows) db,
      if acceptedProducts rows = [] then [] else [map mkOperation (acceptedProducts rows)])"
proof (cases "acceptedProducts rows = []")
  case True
  then have "storeOps rows = []" by (simp add: storeOps_def)
  with True show ?thesis
    by (simp add: uploadProducts_def onEnd_onRows runOperations_Nil)
next
  case False
  then show ?thesis
    by (simp add: uploadProducts_def onEnd_onRows bulkWrite_accepted)
qed

lemma catalogAfterUpload_end:
  "catalogAfterUpload (Some (rows, End)) db = runOperations (storeOps rows) db"
  by (simp add: catalogAfterUpload_def upload_end)

lemma uploadResponse_end: "uploadResponse (Some (rows, End)) db = summaryOf rows"
  by (simp add: uploadResponse_def upload_end)

lemma catalogAfterUpload_other:
  "catalogAfterUpload None db = db" "catalogAfterUpload (Some (rows, Error msg)) db = db"
  by (simp_all add: catalogAfterUpload_def uploadProducts_def)

text \<open>
  C6. On a catalog that respects the unique index on sku, uploading the same file a
  second time, right after the first, leaves the catalog as the first upload left it,
  with the same number of records, and both uploads answer with the same summary,
  whose \<open>stored\<close> is the number of accepted rows. The store is the modelled one; the
  timestamps it maintains are not part of the state.
\<close>

theorem upload_twice_same_catalog:
  assumes "unique_sku db"
  shows "catalogAfterUpload (Some (rows, End)) (catalogAfterUpload (Some (rows, End)) db) =
           catalogAfterUpload (Some (rows, End)) db
         \<and> length (catalogAfterUpload (Some (rows, End))
                    (catalogAfterUpload (Some (rows, End)) db)) =
             length (catalogAfterUpload (Some (rows, End)) db)
         \<and> uploadResponse (Some (rows, End)) db =
             (201, Summary ''CSV data processed successfully.''
                     (length (acceptedProducts rows)) (length (rejectedRows rows))
                     (rejectionsFrom 0 rows))
         \<and> uploadResponse (Some (rows, End)) (catalogAfterUpload (Some (rows, End)) db) =
             uploadResponse (Some (rows, End)) db"
proof -
  have "runOperations (storeOps rows) (runOperations (storeOps rows) db) =
      runOperations (storeOps rows) db"
    using storeOps_upserts assms by (rule runOperations_idempotent)
  then show ?thesis
    by (simp add: catalogAfterUpload_end uploadResponse_end summaryOf_def)
qed

lemma validateRow_dupRows:
  "validateRow dupRow1 = Inr (validatedProduct dupRow1)"
  "validateRow dupRow2 = Inr (validatedProduct dupRow2)"
  by (simp_all add: validateRow_def rule_defs dupRow1_def dupRow2_def row_eval js_eval)

lemma acceptedProducts_dupFile:
  "acceptedProducts dupFile = [validatedProduct dupRow1, validatedProduct dupRow2]"
  by (simp add: acceptedProducts_def dupFile_def validateRow_dupRows validateRow_missingNameRow)

lemma rejectedRows_dupFile: "rejectedRows dupFile = [missingNameRow]"
  by (simp add: rejectedRows_def dupFile_def validateRow_dupRows validateRow_missingNameRow)

lemma rejectionsFrom_dupFile:
  "rejectionsFrom 0 dupFile =
     [\<lparr>row = 2, data = missingNameRow, reason = ''Missing required fields.''\<rparr>]"
  by (simp add: dupFile_def validateRow_dupRows validateRow_missingNameRow)

lemma storedSku_dupRows:
  "storedSku (validatedProduct dupRow1) = ''DUP-1''"
  "storedSku (validatedProduct dupRow2) = ''DUP-1''"
  by (simp_all add: storedSku_def validatedProduct_fields dupRow1_def dupRow2_def row_eval
      js_eval)

lemma catalog_dupFile:
  "catalogAfterUpload (Some (dupFile, End)) [] =
     [castPath (validatedProduct dupRow1) ++ castPath (validatedProduct dupRow2)]"
proof -
  have n: "\<not> isl (validateRow dupRow1)" "\<not> isl (validateRow dupRow2)"
    by (simp_all add: validateRow_dupRows)
  have k: "skuOf (castPath (validatedProduct dupRow1)) = Some (Str ''DUP-1'')"
    using castOperation_validated(2) [OF n(1)] by (simp add: storedSku_dupRows)
  have i: "[''sku'' \<mapsto> Str ''DUP-1''] ++ castPath (validatedProduct dupRow1) =
      castPath (validatedProduct dupRow1)"
    using k by (rule insert_doc_eq)
  show ?thesis
    by (simp add: catalogAfterUpload_end storeOps_eq acceptedProducts_dupFile storedSku_dupRows
        runOperations_Cons runOperations_Nil updateDoc_Cons k i)
qed

theorem upload_twice_same_catalog_witness:
  "unique_sku []
   \<and> catalogAfterUpload (Some (dupFile, End)) [] =
       [castPath (validatedProduct dupRow1) ++ castPath (validatedProduct dupRow2)]
   \<and> catalogAfterUpload (Some (dupFile, End)) (catalogAfterUpload (Some (dupFile, End)) []) =
       [castPath (validatedProduct dupRow1) ++ castPath (validatedProduct dupRow2)]
   \<and> uploadResponse (Some (dupFile, End)) [] =
       (201, Summary ''CSV data processed successfully.'' 2 1
               [\<lparr>row = 2, data = missingNameRow, reason = ''Missing required fields.''\<rparr>])
   \<and> uploadResponse (Some (dupFile, End)) (catalogAfterUpload (Some (dupFile, End)) []) =
       (201, Summary ''CSV data processed successfully.'' 2 1
               [\<lparr>row = 2, data = missingNameRow, reason = ''Missing required fields.''\<rparr>])"
proof -
  have u: "unique_sku []"
    by (simp add: unique_sku_def)
  note t = upload_twice_same_catalog [OF u, of dupFile]
  have a: "catalogAfterUpload (Some (dupFile, End)) (catalogAfterUpload (Some (dupFile, End)) []) =
       [castPath (validatedProduct dupRow1) ++ castPath (validatedProduct dupRow2)]"
    using t [THEN conjunct1] catalog_dupFile by (rule trans)
  have b: "uploadResponse (Some (dupFile, End)) [] =
       (201, Summary ''CSV data processed successfully.'' 2 1
               [\<lparr>row = 2, data = missingNameRow, reason = ''Missing required fields.''\<rparr>])"
    using t by (simp add: acceptedProducts_dupFile rejectedRows_dupFile rejectionsFrom_dupFile)
  have c: "uploadResponse (Some (dupFile, End)) (catalogAfterUpload (Some (dupFile, End)) []) =
      uploadResponse (Some (dupFile, End)) []"
    using t by (elim conjE)
  from u catalog_dupFile a b c [THEN trans, OF b] show ?thesis
    by (intro conjI)
qed

text \<open>
  C10. On a catalog that respects the unique index on sku, the catalog after any
  upload request respects it again, so it never holds two entries with one sku; the
  summary counts every accepted row as stored, also rows that repeat an sku; and for
  an accepted row that is the last one of the file with its sku (the sku as the store
  keeps it, trimmed), the catalog afterwards has exactly one entry with that sku, and
  this entry holds every field that the row's product sets. The store is the modelled
  one; the read handlers do not change the catalog.
\<close>

theorem one_entry_per_sku_last_row_wins:
  assumes "unique_sku db"
  shows "unique_sku (catalogAfterUpload file db)
         \<and> uploadResponse (Some (rows, End)) db =
             (201, Summary ''CSV data processed successfully.''
                     (length (acceptedProducts rows)) (length (rejectedRows rows))
                     (rejectionsFrom 0 rows))
         \<and> (\<forall>i. i < length (acceptedProducts rows)
                \<and> (\<forall>j. i < j \<and> j < length (acceptedProducts rows) \<longrightarrow>
                      storedSku (acceptedProducts rows ! j) \<noteq> storedSku (acceptedProducts rows ! i))
              \<longrightarrow> (\<exists>d. filter (\<lambda>e. skuOf e = Some (Str (storedSku (acceptedProducts rows ! i))))
                          (catalogAfterUpload (Some (rows, End)) db) = [d]
                        \<and> castPath (acceptedProducts rows ! i) \<subseteq>\<^sub>m d))"
proof (intro conjI allI impI)
  show "unique_sku (catalogAfterUpload file db)"
  proof (cases "file")
    case None
    with assms show ?thesis by (simp add: catalogAfterUpload_other)
  next
    case (Some f)
    obtain rs e where f: "f = (rs, e)" by (cases f)
    show ?thesis
    proof (cases e)
      case End
      with Some f assms show ?thesis
        by (simp add: catalogAfterUpload_end runOperations_unique storeOps_upserts)
    next
      case (Error msg)
      with Some f assms show ?thesis by (simp add: catalogAfterUpload_other)
    qed
  qed
next
  show "uploadResponse (Some (rows, End)) db =
             (201, Summary ''CSV data processed successfully.''
                     (length (acceptedProducts rows)) (length (rejectedRows rows))
                     (rejectionsFrom 0 rows))"
    by (simp add: uploadResponse_end summaryOf_def)
next
  fix i
  let ?acc = "acceptedProducts rows"
  let ?db' = "runOperations (storeOps rows) db"
  assume h: "i < length ?acc
    \<and> (\<forall>j. i < j \<and> j < length ?acc \<longrightarrow> storedSku (?acc ! j) \<noteq> storedSku (?acc ! i))"
  have nth: "\<And>j. j < length ?acc \<Longrightarrow>
      storeOps rows ! j = (True, storedSku (?acc ! j), castPath (?acc ! j))"
    by (simp add: storeOps_eq)
  have len: "length (storeOps rows) = length ?acc"
    by (simp add: storeOps_eq)
  from h have i: "i < length (storeOps rows)"
    by (simp add: len)
  have later: "\<forall>j. i < j \<and> j < length (storeOps rows) \<longrightarrow>
      opKey (storeOps rows ! j) \<noteq> opKey (storeOps rows ! i)"
  proof (intro allI impI)
    fix j assume j: "i < j \<and> j < length (storeOps rows)"
    with h have "storedSku (?acc ! j) \<noteq> storedSku (?acc ! i)"
      by (simp add: len)
    with j h show "opKey (storeOps rows ! j) \<noteq> opKey (storeOps rows ! i)"
      by (simp add: nth len opKey_simp)
  qed
  from runOperations_last_wins [OF storeOps_upserts i later, of db] obtain d
    where d: "d \<in> set ?db'" "skuOf d = opKey (storeOps rows ! i)"
      "snd (snd (storeOps rows ! i)) \<subseteq>\<^sub>m d"
    by blast
  from h have k: "opKey (storeOps rows ! i) = Some (Str (storedSku (?acc ! i)))"
    and s: "snd (snd (storeOps rows ! i)) = castPath (?acc ! i)"
    by (simp_all add: nth opKey_simp)
  have "unique_sku ?db'"
    using storeOps_upserts assms by (rule runOperations_unique)
  from unique_filter [OF this d(1)] d(2) k
  have "filter (\<lambda>e. skuOf e = Some (Str (storedSku (?acc ! i)))) ?db' = [d]"
    by simp
  with d(3) s
  show "\<exists>d. filter (\<lambda>e. skuOf e = Some (Str (storedSku (?acc ! i))))
               (catalogAfterUpload (Some (rows, End)) db) = [d]
           \<and> castPath (?acc ! i) \<subseteq>\<^sub>m d"
    by (simp add: catalogAfterUpload_end)
qed

theorem one_entry_per_sku_last_row_wins_witness:
  "unique_sku []
   \<and> storedSku (acceptedProducts dupFile ! 0) = ''DUP-1''
   \<and> storedSku (acceptedProducts dupFile ! 1) = ''DUP-1''
   \<and> uploadResponse (Some (dupFile, End)) [] =
       (201, Summary ''CSV data processed successfully.'' 2 1
               [\<lparr>row = 2, data = missingNameRow, reason = ''Missing required fields.''\<rparr>])
   \<and> unique_sku (catalogAfterUpload (Some (dupFile, End)) [])
   \<and> length (catalogAfterUpload (Some (dupFile, End)) []) = 1
   \<and> (\<exists>d. filter (\<lambda>e. skuOf e = Some (Str ''DUP-1''))
              (catalogAfterUpload (Some (dupFile, End)) []) = [d]
          \<and> castPath (validatedProduct dupRow2) \<subseteq>\<^sub>m d)
   \<and> castPath (validatedProduct dupRow2) ''price'' = Some (Num (Fin 450))
   \<and> castPath (validatedProduct dupRow2) ''name'' = Some (Str ''Shirt v2'')"
proof -
  have u: "unique_sku []"
    by (simp add: unique_sku_def)
  note t = one_entry_per_sku_last_row_wins [OF u, of "Some (dupFile, End)" dupFile]
  have k0: "storedSku (acceptedProducts dupFile ! 0) = ''DUP-1''"
    and k1: "storedSku (acceptedProducts dupFile ! 1) = ''DUP-1''"
    and a1: "acceptedProducts dupFile ! 1 = validatedProduct dupRow2"
    by (simp_all add: acceptedProducts_dupFile storedSku_dupRows)
  have r: "uploadResponse (Some (dupFile, End)) [] =
       (201, Summary ''CSV data processed successfully.'' 2 1
               [\<lparr>row = 2, data = missingNameRow, reason = ''Missing required fields.''\<rparr>])"
    using t [THEN conjunct2, THEN conjunct1]
    by (simp add: acceptedProducts_dupFile rejectedRows_dupFile rejectionsFrom_dupFile)
  have q: "unique_sku (catalogAfterUpload (Some (dupFile, End)) [])"
    using t by (elim conjE)
  have l: "length (catalogAfterUpload (Some (dupFile, End)) []) = 1"
    by (simp add: catalog_dupFile)
  have h: "1 < length (acceptedProducts dupFile)
      \<and> (\<forall>j. 1 < j \<and> j < length (acceptedProducts dupFile) \<longrightarrow>
            storedSku (acceptedProducts dupFile ! j) \<noteq> storedSku (acceptedProducts dupFile ! 1))"
    by (simp add: acceptedProducts_dupFile)
  from t [THEN conjunct2, THEN conjunct2, rule_format, of 1, OF h]
  have e: "\<exists>d. filter (\<lambda>e. skuOf e = Some (Str ''DUP-1''))
              (catalogAfterUpload (Some (dupFile, End)) []) = [d]
          \<and> castPath (validatedProduct dupRow2) \<subseteq>\<^sub>m d"
    by (simp only: a1 storedSku_dupRows)
  have p: "castPath (validatedProduct dupRow2) ''price'' = Some (Num (Fin 450))"
    by (simp add: castPath_def productSchema_def validatedProduct_fields castValue_def
        parsedPrice_def dupRow2_def row_eval js_eval)
  have n: "castPath (validatedProduct dupRow2) ''name'' = Some (Str ''Shirt v2'')"
    by (simp add: castPath_def productSchema_def validatedProduct_fields castValue_def
        dupRow2_def row_eval js_eval)
  from u k0 k1 r q l e p n show ?thesis
    by (intro conjI)
qed

end
